theory Spec2Isabelle
  imports Main "HOL-Library.Char_ord" "HOL-Library.List_Lexorder"
begin

section \<open>Python values and strings\<close>

text \<open>
  A Python \<open>str\<close> is modelled as a \<open>string\<close>: one \<open>char\<close> per code point, for the
  code points below 256. A cell of the grid holds \<open>None\<close> or a string.
\<close>

datatype pyval = PNone | PStr string

text \<open>Python truthiness of a cell value: \<open>None\<close> and the empty string are falsy.\<close>

fun truthy :: "pyval \<Rightarrow> bool" where
  "truthy PNone = False"
| "truthy (PStr s) = (s \<noteq> [])"

text \<open>\<open>str(cell_value)\<close>; it is only ever applied to a truthy value.\<close>

fun py_str :: "pyval \<Rightarrow> string" where
  "py_str PNone = ''None''"
| "py_str (PStr s) = s"

section \<open>utils.py: column headers\<close>

text \<open>
  The body of the \<open>while True\<close> loop of \<open>generate_column_headers\<close>:
  prepend \<open>chr(65 + num % 26)\<close>, divide by 26, stop at zero, else decrement.
\<close>

function column_header_loop :: "nat \<Rightarrow> string \<Rightarrow> string" where
  "column_header_loop num header =
     (let header' = char_of (65 + num mod 26) # header;
          num' = num div 26
      in if num' = 0 then header' else column_header_loop (num' - 1) header')"
  by pat_completeness auto
termination
  by (relation "measure fst") (auto simp: Let_def intro: Suc_lessI)

declare column_header_loop.simps [simp del]

text \<open>\<open>for i in range(count)\<close>: a negative count gives the empty range.\<close>

definition generate_column_headers :: "int \<Rightarrow> string list" where
  "generate_column_headers count =
     fold (\<lambda>i headers. headers @ [column_header_loop i []]) [0..<nat count] []"

text \<open>
  The number a spreadsheet column name stands for, as the spec has it: letters are the
  digits 1 to 26 of a positional numeral without zero, so A is 1, Z is 26, AA is 27.
\<close>

definition column_number :: "string \<Rightarrow> nat" where
  "column_number s = foldl (\<lambda>acc c. acc * 26 + (of_char c - 64)) 0 s"

definition upper_letter :: "char \<Rightarrow> bool" where
  "upper_letter c = (65 \<le> (of_char c :: nat) \<and> (of_char c :: nat) \<le> 90)"

section \<open>utils.py: the cell codec\<close>

subsection \<open>String primitives of Python\<close>

text \<open>
  \<open>str.strip()\<close> and the regular-expression class \<open>\s\<close> use the same test for
  white space; below code point 256 it accepts exactly these characters.
\<close>

definition isspace :: "char \<Rightarrow> bool" where
  "isspace c = ((of_char c :: nat) \<in> {9, 10, 11, 12, 13, 28, 29, 30, 31, 32, 133, 160})"

definition lstrip :: "string \<Rightarrow> string" where
  "lstrip s = dropWhile isspace s"

definition rstrip :: "string \<Rightarrow> string" where
  "rstrip s = rev (dropWhile isspace (rev s))"

definition strip :: "string \<Rightarrow> string" where
  "strip s = rstrip (lstrip s)"

text \<open>
  \<open>s.split(sep)\<close> for a one-character separator: empty pieces are kept, so the result
  always has a first piece, and a character other than the separator joins that piece.
\<close>

fun split_on :: "char \<Rightarrow> string \<Rightarrow> string list" where
  "split_on sep [] = [[]]"
| "split_on sep (c # cs) =
     (if c = sep then [] # split_on sep cs
      else (case split_on sep cs of
              p # ps \<Rightarrow> (c # p) # ps
            | [] \<Rightarrow> [[c]]))"

text \<open>\<open>sep.join(xs)\<close>.\<close>

fun py_join :: "string \<Rightarrow> string list \<Rightarrow> string" where
  "py_join sep [] = []"
| "py_join sep [x] = x"
| "py_join sep (x # y # ys) = x @ sep @ py_join sep (y # ys)"

subsection \<open>The two regular expressions\<close>

text \<open>
  \<open>\[IMGS?\]\<close> at the head of the input: the rest of the input after the tag, if the tag
  is there. The optional \<open>S\<close> is tried first; without it the next character must be
  \<open>]\<close>, so at most one of the two alternatives matches.
\<close>

definition match_tag :: "string \<Rightarrow> string option" where
  "match_tag s =
     (if take 6 s = ''[IMGS]'' then Some (drop 6 s)
      else if take 5 s = ''[IMG]'' then Some (drop 5 s)
      else None)"

text \<open>The character class \<open>[^\[\]]\<close>.\<close>

definition not_bracket :: "char \<Rightarrow> bool" where
  "not_bracket c = (c \<noteq> CHR ''['' \<and> c \<noteq> CHR '']'')"

text \<open>
  What group 1 of \<open>\[IMGS?\]\s*([^\[\]]+)\<close> captures, given the maximal run of
  non-bracket characters after the tag (the run is not empty): \<open>\s*\<close> is greedy, so the
  group is the run without its leading white space; when the whole run is white space,
  \<open>\s*\<close> gives back one character and the group is the last character of the run.
\<close>

definition capture_group :: "string \<Rightarrow> string" where
  "capture_group run =
     (if dropWhile isspace run = [] then [last run] else dropWhile isspace run)"

text \<open>
  \<open>re.findall(r'\[IMGS?\]\s*([^\[\]]+)', s)\<close>: scan from the left; where the pattern
  matches, record group 1 and go on after the match; elsewhere go on one character later.
  A tag followed by no non-bracket character does not match.
\<close>

function findall_img :: "string \<Rightarrow> string list" where
  "findall_img [] = []"
| "findall_img (c # cs) =
     (case match_tag (c # cs) of
        None \<Rightarrow> findall_img cs
      | Some r \<Rightarrow>
          if takeWhile not_bracket r = [] then findall_img cs
          else capture_group (takeWhile not_bracket r) # findall_img (dropWhile not_bracket r))"
  by pat_completeness auto
termination
proof (relation "measure length")
  fix c cs r
  assume "match_tag (c # cs) = Some r"
  then have "length r < length (c # cs)"
    by (auto simp: match_tag_def split: if_splits)
  moreover have "length (dropWhile not_bracket r) \<le> length r" by (rule length_dropWhile_le)
  ultimately show "(dropWhile not_bracket r, c # cs) \<in> measure length" by simp
qed simp_all

text \<open>
  \<open>re.sub(r'\[IMGS?\][^\[\]]*', '', s)\<close>: every tag goes, with the non-bracket
  characters that follow it.
\<close>

function sub_img :: "string \<Rightarrow> string" where
  "sub_img [] = []"
| "sub_img (c # cs) =
     (case match_tag (c # cs) of
        None \<Rightarrow> c # sub_img cs
      | Some r \<Rightarrow> sub_img (dropWhile not_bracket r))"
  by pat_completeness auto
termination
proof (relation "measure length")
  fix c cs r
  assume "match_tag (c # cs) = Some r"
  then have "length r < length (c # cs)"
    by (auto simp: match_tag_def split: if_splits)
  moreover have "length (dropWhile not_bracket r) \<le> length r" by (rule length_dropWhile_le)
  ultimately show "(dropWhile not_bracket r, c # cs) \<in> measure length" by simp
qed simp_all

text \<open>\<open>re.sub(r'\n+', '\n', s)\<close>: every run of newlines becomes one newline.\<close>

function collapse_newlines :: "string \<Rightarrow> string" where
  "collapse_newlines [] = []"
| "collapse_newlines (c # cs) =
     (if c = CHR 0x0A then CHR 0x0A # collapse_newlines (dropWhile (\<lambda>d. d = CHR 0x0A) cs)
      else c # collapse_newlines cs)"
  by pat_completeness auto
termination
  by (relation "measure length") (auto simp: length_dropWhile_le less_Suc_eq_le)

subsection \<open>\<open>extract_image_paths\<close>, \<open>clean_text_content\<close>, \<open>format_cell_with_images\<close>\<close>

text \<open>The paths of one match: split at \<open>;\<close>, strip each piece, drop the empty ones.\<close>

definition match_paths :: "string \<Rightarrow> string list" where
  "match_paths m = map strip (filter (\<lambda>path. strip path \<noteq> []) (split_on CHR '';'' m))"

definition extract_image_paths :: "pyval \<Rightarrow> string list" where
  "extract_image_paths cell_value =
     (if \<not> truthy cell_value then []
      else fold (\<lambda>m image_paths. image_paths @ match_paths m)
             (findall_img (py_str cell_value)) [])"

definition clean_text_content :: "pyval \<Rightarrow> string" where
  "clean_text_content cell_value =
     (if \<not> truthy cell_value then []
      else strip (collapse_newlines (sub_img (py_str cell_value))))"

text \<open>\<open>os.path.isabs\<close> of \<open>posixpath\<close>.\<close>

definition isabs :: "string \<Rightarrow> bool" where
  "isabs p = (take 1 p = ''/'')"

text \<open>
  \<open>os.path.relpath(path, start=os.getcwd())\<close> depends on the working directory of the
  process; it is the parameter \<open>relpath\<close>.
\<close>

definition to_relative_paths :: "(string \<Rightarrow> string) \<Rightarrow> string list \<Rightarrow> string list" where
  "to_relative_paths relpath image_paths =
     map (\<lambda>path. if isabs path then relpath path else path) image_paths"

definition format_cell_with_images :: "(string \<Rightarrow> string) \<Rightarrow> string \<Rightarrow> string list \<Rightarrow> string" where
  "format_cell_with_images relpath text_content image_paths =
     (if image_paths = [] then text_content
      else
        let relative_paths = to_relative_paths relpath image_paths;
            image_tag = (if length relative_paths = 1 then ''[IMG] '' @ hd relative_paths
                         else ''[IMGS] '' @ py_join ''; '' relative_paths)
        in if text_content \<noteq> [] \<and> strip text_content \<noteq> []
           then strip text_content @ [CHR 0x0A] @ image_tag
           else image_tag)"

text \<open>Decoding a cell value: its text and its images.\<close>

definition decode :: "pyval \<Rightarrow> string \<times> string list" where
  "decode v = (clean_text_content v, extract_image_paths v)"

text \<open>A tag somewhere in the text.\<close>

fun has_tag :: "string \<Rightarrow> bool" where
  "has_tag [] = False"
| "has_tag (c # cs) = (match_tag (c # cs) \<noteq> None \<or> has_tag cs)"

text \<open>
  A path that the tag grammar carries unchanged: not empty, no white space at either end,
  and none of the characters \<open>[\<close>, \<open>]\<close> and \<open>;\<close>.
\<close>

definition clean_path :: "string \<Rightarrow> bool" where
  "clean_path p = (p \<noteq> [] \<and> \<not> isspace (hd p) \<and> \<not> isspace (last p) \<and>
      CHR ''['' \<notin> set p \<and> CHR '']'' \<notin> set p \<and> CHR '';'' \<notin> set p)"

section \<open>utils.py: adding images to a cell\<close>

text \<open>
  The grid widget is an external collaborator (tksheet). Its data is a list of rows of
  cell values. The model covers the cells inside the grid: a read outside gives
  \<open>None\<close> and a write outside changes nothing, and no theorem below relies on
  either.
\<close>

type_synonym grid = "pyval list list"

definition get_cell_data :: "grid \<Rightarrow> nat \<Rightarrow> nat \<Rightarrow> pyval" where
  "get_cell_data g row col =
     (if row < length g \<and> col < length (g ! row) then g ! row ! col else PNone)"

definition set_cell_data :: "grid \<Rightarrow> nat \<Rightarrow> nat \<Rightarrow> pyval \<Rightarrow> grid" where
  "set_cell_data g row col v =
     (if row < length g \<and> col < length (g ! row) then g[row := (g ! row)[col := v]] else g)"

text \<open>The Python expression \<open>x or ""\<close>.\<close>

definition or_empty :: "pyval \<Rightarrow> pyval" where
  "or_empty v = (if truthy v then v else PStr [])"

text \<open>
  The value computed for the cell by \<open>add_images_to_cell_incremental\<close>: text and images
  of the current value, the new images appended, duplicates dropped by the loop
  \<open>for img in all_images: if img not in unique_images: unique_images.append(img)\<close>.
\<close>

definition unique_images :: "string list \<Rightarrow> string list" where
  "unique_images all_images =
     fold (\<lambda>img unique. if img \<in> set unique then unique else unique @ [img]) all_images []"

definition merged_value :: "(string \<Rightarrow> string) \<Rightarrow> pyval \<Rightarrow> string list \<Rightarrow> string" where
  "merged_value relpath current_value new_image_paths =
     (let text_content = clean_text_content current_value;
          existing_images = extract_image_paths current_value;
          all_images = existing_images @ new_image_paths
      in format_cell_with_images relpath text_content (unique_images all_images))"

definition add_images_to_cell_incremental ::
    "(string \<Rightarrow> string) \<Rightarrow> grid \<Rightarrow> nat \<Rightarrow> nat \<Rightarrow> string list \<Rightarrow> grid" where
  "add_images_to_cell_incremental relpath sheet row col new_image_paths =
     (if new_image_paths = [] then sheet
      else
        let current_value = or_empty (get_cell_data sheet row col)
        in set_cell_data sheet row col
             (PStr (merged_value relpath current_value new_image_paths)))"

text \<open>
  Deduplication as the spec words it: by equality, keeping the first occurrence.
\<close>

fun keep_first :: "'a list \<Rightarrow> 'a list" where
  "keep_first [] = []"
| "keep_first (x # xs) = x # keep_first (removeAll x xs)"

section \<open>wiki_exporter.py\<close>

text \<open>
  The fixed texts of the renderer are Chinese. Each is written as the bytes of its UTF-8
  form; the renderer only emits them and never scans them. In source order: the title
  after \<open>h2. \<close>, the title after \<open>h3. \<close>, and the two halves of the instruction
  line around the word \<open>Confluence\<close>.
\<close>

definition zh_table_data :: string where
  "zh_table_data =
     [CHR 0xE8, CHR 0xA1, CHR 0xA8, CHR 0xE6, CHR 0xA0, CHR 0xBC, CHR 0xE6, CHR 0x95,
      CHR 0xB0, CHR 0xE6, CHR 0x8D, CHR 0xAE]"

definition zh_image_files :: string where
  "zh_image_files =
     [CHR 0xE5, CHR 0x9B, CHR 0xBE, CHR 0xE7, CHR 0x89, CHR 0x87, CHR 0xE6, CHR 0x96,
      CHR 0x87, CHR 0xE4, CHR 0xBB, CHR 0xB6]"

definition zh_please_upload :: string where
  "zh_please_upload =
     [CHR 0xE8, CHR 0xAF, CHR 0xB7, CHR 0xE5, CHR 0xB0, CHR 0x86, CHR 0xE4, CHR 0xBB,
      CHR 0xA5, CHR 0xE4, CHR 0xB8, CHR 0x8B, CHR 0xE5, CHR 0x9B, CHR 0xBE, CHR 0xE7,
      CHR 0x89, CHR 0x87, CHR 0xE6, CHR 0x96, CHR 0x87, CHR 0xE4, CHR 0xBB, CHR 0xB6,
      CHR 0xE4, CHR 0xB8, CHR 0x8A, CHR 0xE4, CHR 0xBC, CHR 0xA0, CHR 0xE5, CHR 0x88,
      CHR 0xB0]"

definition zh_page_attachments :: string where
  "zh_page_attachments =
     [CHR 0xE9, CHR 0xA1, CHR 0xB5, CHR 0xE9, CHR 0x9D, CHR 0xA2, CHR 0xE7, CHR 0x9A,
      CHR 0x84, CHR 0xE9, CHR 0x99, CHR 0x84, CHR 0xE4, CHR 0xBB, CHR 0xB6, CHR 0xE4,
      CHR 0xB8, CHR 0xAD, CHR 0xEF, CHR 0xBC, CHR 0x9A]"

text \<open>\<open>os.path.basename\<close> of \<open>posixpath\<close>: what follows the last slash.\<close>

definition basename :: "string \<Rightarrow> string" where
  "basename p = rev (takeWhile (\<lambda>c. c \<noteq> CHR ''/'') (rev p))"

text \<open>\<open>s.replace("\n", "\\\\")\<close>: every newline becomes two backslashes.\<close>

definition replace_newlines :: "string \<Rightarrow> string" where
  "replace_newlines s = concat (map (\<lambda>c. if c = CHR 0x0A then [CHR 0x5C, CHR 0x5C] else [c]) s)"

text \<open>
  \<open>"||" + "||".join(str(h) for h in headers) + "||\n"\<close>; the headers of the grid are
  strings.
\<close>

definition header_row :: "string list \<Rightarrow> string" where
  "header_row headers = ''||'' @ py_join ''||'' headers @ ''||'' @ [CHR 0x0A]"

text \<open>
  The inner loop over the images of one cell: a marker \<open>!basename!\<close> for every path
  that exists on disk. Whether a path exists is the parameter \<open>exists\<close>.
\<close>

definition image_refs :: "(string \<Rightarrow> bool) \<Rightarrow> string list \<Rightarrow> string list" where
  "image_refs exists image_paths =
     fold (\<lambda>image_path refs.
             if exists image_path then refs @ [''!'' @ basename image_path @ ''!''] else refs)
          image_paths []"

text \<open>The content of one cell slot in \<open>get_wiki_content\<close>.\<close>

definition cell_content :: "(string \<Rightarrow> bool) \<Rightarrow> pyval \<Rightarrow> string" where
  "cell_content exists cell_value =
     (if truthy cell_value then
        let clean_text = clean_text_content cell_value;
            content = (if clean_text \<noteq> [] then replace_newlines clean_text else []);
            image_paths = extract_image_paths cell_value
        in if image_paths \<noteq> [] then
             let refs = image_refs exists image_paths
             in if refs \<noteq> [] then
                  (if content \<noteq> [] then content @ ''|'' @ py_join ''|'' refs
                   else py_join ''|'' refs)
                else content
           else content
      else [])"

text \<open>One data row: \<open>"|" + "|".join(row_cells) + "|\n"\<close>.\<close>

definition data_row :: "(string \<Rightarrow> bool) \<Rightarrow> pyval list \<Rightarrow> string" where
  "data_row exists row_data =
     (let row_cells = fold (\<lambda>cell_value cells. cells @ [cell_content exists cell_value]) row_data []
      in ''|'' @ py_join ''|'' row_cells @ ''|'' @ [CHR 0x0A])"

text \<open>
  The second pass over the grid: the set \<open>image_files\<close> of the base names of the
  images that exist.
\<close>

definition collect_image_files :: "(string \<Rightarrow> bool) \<Rightarrow> grid \<Rightarrow> string set" where
  "collect_image_files exists data =
     fold (\<lambda>row_data files.
        fold (\<lambda>cell_value files.
           if truthy cell_value then
             fold (\<lambda>image_path files.
                     if exists image_path then insert (basename image_path) files else files)
                  (extract_image_paths cell_value) files
           else files)
          row_data files)
       data {}"

text \<open>
  \<open>get_wiki_content\<close>. The list \<open>wiki_content\<close> of the source is accumulated piece by
  piece and joined at the end; \<open>sorted\<close> orders strings by code point.
\<close>

definition get_wiki_content :: "(string \<Rightarrow> bool) \<Rightarrow> string list \<Rightarrow> grid \<Rightarrow> string" where
  "get_wiki_content exists headers data =
     (let wiki_content = [''h2. '' @ zh_table_data @ [CHR 0x0A, CHR 0x0A]];
          wiki_content = wiki_content @ [header_row headers];
          wiki_content =
            fold (\<lambda>row_data content.
                    if list_ex truthy row_data then content @ [data_row exists row_data]
                    else content)
                 data wiki_content;
          wiki_content = wiki_content @ [[CHR 0x0A] @ ''h3. '' @ zh_image_files @ [CHR 0x0A]];
          wiki_content = wiki_content @
            [zh_please_upload @ ''Confluence'' @ zh_page_attachments @ [CHR 0x0A, CHR 0x0A]];
          image_files = collect_image_files exists data;
          wiki_content =
            fold (\<lambda>image_file content. content @ [''* '' @ image_file @ [CHR 0x0A]])
                 (sorted_list_of_set image_files) wiki_content
      in concat wiki_content)"

text \<open>
  \<open>_export_wiki_sync\<close> writes its text to the file it is given; this is the text. Its
  cell slot holds the cleaned text only.
\<close>

definition sync_cell_content :: "pyval \<Rightarrow> string" where
  "sync_cell_content cell_value =
     (if truthy cell_value then
        let clean_text = clean_text_content cell_value
        in if clean_text \<noteq> [] then replace_newlines clean_text else []
      else [])"

definition export_wiki_sync_text :: "string list \<Rightarrow> grid \<Rightarrow> string" where
  "export_wiki_sync_text headers data =
     (let wiki_content = [''h2. '' @ zh_table_data @ [CHR 0x0A, CHR 0x0A]];
          wiki_content = wiki_content @ [header_row headers];
          wiki_content =
            fold (\<lambda>row_data content.
                    if list_ex truthy row_data then
                      let row_cells =
                            fold (\<lambda>cell_value cells. cells @ [sync_cell_content cell_value])
                                 row_data []
                      in content @ [''|'' @ py_join ''|'' row_cells @ ''|'' @ [CHR 0x0A]]
                    else content)
                 data wiki_content
      in concat wiki_content)"

section \<open>Files, directories and the clock\<close>

text \<open>
  The part of the machine that the file operations see. Regular files are a map from
  path to content; directories are a map from path to the names that \<open>os.listdir\<close>
  returns, in the order it returns them. The program names every file by one spelling
  of its path, so paths are compared as strings. \<open>ticks\<close> counts the readings of the
  clock made so far.
\<close>

record world =
  files :: "string \<rightharpoonup> string"
  dirs :: "string \<rightharpoonup> string list"
  ticks :: nat

datatype exc =
    FileNotFoundError string
  | NotADirectoryError string
  | SameFileError string
  | OSError string
  | ExcelReadError string
  | BadZipFile string

text \<open>A table of a spreadsheet file: column labels and rows of cells.\<close>

record dataframe =
  df_columns :: "string list"
  df_values :: "pyval list list"

text \<open>A directory tree, as a zip archive holds it.\<close>

datatype tree = File string | Dir "(string \<times> tree) list"

text \<open>
  What the program asks \<open>xlsxwriter\<close> to put into a workbook: the name of the one
  worksheet, the cells written (row, column, text and which of the two formats), the
  images inserted (row, column, path and vertical offset; the scales and the horizontal
  offset are the same constants for every image), and the column widths set.
\<close>

datatype cell_format = HeaderFormat | CellFormat

record workbook =
  wb_sheet_name :: string
  wb_cells :: "(nat \<times> nat \<times> string \<times> cell_format) list"
  wb_images :: "(nat \<times> nat \<times> string \<times> nat) list"
  wb_columns :: "(nat \<times> nat) list"

text \<open>
  What the program takes from its surroundings and does not decide itself:
  \<^item> \<open>strftime_now k\<close>: the text of \<open>datetime.now().strftime("%Y%m%d_%H%M%S")\<close> at the
    \<open>k\<close>-th reading of the clock;
  \<^item> \<open>os_relpath\<close>: \<open>os.path.relpath\<close> with respect to the working directory;
  \<^item> \<open>copy_fault\<close>: the message of the error that copying a given source file raises,
    if it raises (an unreadable file, a full disk);
  \<^item> \<open>parse_excel\<close>: the spreadsheet parser, from the content of a file to the table of
    the cell texts that the file holds (\<open>None\<close> for an empty cell), or the message of
    its error;
  \<^item> \<open>parse_zip\<close>: the archive reader, from the content of a file to the entries at
    the top of the archive or the message of its error;
  \<^item> \<open>temp_dir\<close>: the path of the scratch directory that
    \<open>tempfile.TemporaryDirectory\<close> creates;
  \<^item> \<open>create_fault\<close>: the message of the error that creating or replacing the file at
    a given path raises, if it raises (a directory that refuses writes);
  \<^item> \<open>insert_image_fault\<close>: whether \<open>worksheet.insert_image\<close> raises for a given
    image path;
  \<^item> \<open>xlsx_bytes\<close> and \<open>zip_bytes\<close>: the file content that \<open>xlsxwriter\<close> writes for
    a workbook and that \<open>zipfile\<close> writes for a list of entries (name in the archive,
    content);
  \<^item> \<open>os_walk\<close>: the triples (directory, names of subdirectories, names of other
    entries) that \<open>os.walk\<close> yields for a directory of the machine;
  \<^item> the availability flags of \<open>dependencies.py\<close>.
\<close>

record env =
  strftime_now :: "nat \<Rightarrow> string"
  os_relpath :: "string \<Rightarrow> string"
  copy_fault :: "string \<Rightarrow> string option"
  parse_excel :: "string \<Rightarrow> string + dataframe"
  parse_zip :: "string \<Rightarrow> string + (string \<times> tree) list"
  temp_dir :: string
  create_fault :: "string \<Rightarrow> string option"
  insert_image_fault :: "string \<Rightarrow> bool"
  xlsx_bytes :: "workbook \<Rightarrow> string"
  zip_bytes :: "(string \<times> string) list \<Rightarrow> string"
  os_walk :: "world \<Rightarrow> string \<Rightarrow> (string \<times> string list \<times> string list) list"
  PANDAS_AVAILABLE :: bool
  OPENPYXL_AVAILABLE :: bool
  XLSXWRITER_AVAILABLE :: bool

subsection \<open>\<open>os.path\<close> (the POSIX flavour)\<close>

definition path_exists :: "world \<Rightarrow> string \<Rightarrow> bool" where
  "path_exists w p = (files w p \<noteq> None \<or> dirs w p \<noteq> None)"

definition isfile :: "world \<Rightarrow> string \<Rightarrow> bool" where
  "isfile w p = (files w p \<noteq> None)"

text \<open>\<open>os.path.join(a, b)\<close>.\<close>

definition join :: "string \<Rightarrow> string \<Rightarrow> string" where
  "join a b =
     (if take 1 b = ''/'' then b
      else if a = [] \<or> last a = CHR ''/'' then a @ b
      else a @ ''/'' @ b)"

text \<open>
  \<open>os.path.dirname\<close>: the part up to the last slash, without its trailing slashes
  unless it consists of slashes only.
\<close>

definition dirname :: "string \<Rightarrow> string" where
  "dirname p =
     (let head = rev (dropWhile (\<lambda>c. c \<noteq> CHR ''/'') (rev p))
      in if head \<noteq> [] \<and> list_ex (\<lambda>c. c \<noteq> CHR ''/'') head
         then rev (dropWhile (\<lambda>c. c = CHR ''/'') (rev head))
         else head)"

text \<open>
  \<open>os.path.splitext\<close>: the extension starts at the last dot of the last path
  component, provided a character other than a dot comes before it in that component.
\<close>

definition splitext :: "string \<Rightarrow> string \<times> string" where
  "splitext p =
     (let base = basename p;
          head = take (length p - length base) p
      in if CHR ''.'' \<in> set base then
           let ext = CHR ''.'' # rev (takeWhile (\<lambda>c. c \<noteq> CHR ''.'') (rev base));
               stem = take (length base - length ext) base
           in if list_ex (\<lambda>c. c \<noteq> CHR ''.'') stem then (head @ stem, ext) else (p, [])
         else (p, []))"


subsection \<open>Reading the clock, creating directories, copying files\<close>

text \<open>One reading of the clock: the formatted time, and the world one tick later.\<close>

definition read_clock :: "env \<Rightarrow> world \<Rightarrow> string \<times> world" where
  "read_clock e w = (strftime_now e (ticks w), w\<lparr>ticks := ticks w + 1\<rparr>)"

text \<open>
  A new entry \<open>p\<close> shows up in the listing of its parent directory, when the parent is
  a directory the world knows.
\<close>

definition list_entry :: "string \<Rightarrow> world \<Rightarrow> world" where
  "list_entry p w =
     (case dirs w (dirname p) of
        None \<Rightarrow> w
      | Some names \<Rightarrow>
          if basename p \<in> set names then w
          else w\<lparr>dirs := (dirs w)(dirname p \<mapsto> names @ [basename p])\<rparr>)"

text \<open>\<open>os.makedirs(p)\<close> for a path that does not exist yet.\<close>

definition makedirs :: "string \<Rightarrow> world \<Rightarrow> world" where
  "makedirs p w = list_entry p (w\<lparr>dirs := (dirs w)(p \<mapsto> [])\<rparr>)"

text \<open>
  \<open>shutil.copy(src, dst)\<close> and \<open>shutil.copy2(src, dst)\<close>, which differ in the metadata
  they carry over only. The source must be a regular file; a destination that is a
  directory stands for the file of the same base name inside it; the directory of the
  destination must exist (the empty directory name is the working directory).
\<close>

definition copy_file :: "env \<Rightarrow> string \<Rightarrow> string \<Rightarrow> world \<Rightarrow> exc + world" where
  "copy_file e src dst w =
     (case copy_fault e src of
        Some msg \<Rightarrow> Inl (OSError msg)
      | None \<Rightarrow>
          (case files w src of
             None \<Rightarrow> Inl (FileNotFoundError src)
           | Some content \<Rightarrow>
               let dst = (if dirs w dst \<noteq> None then join dst (basename src) else dst)
               in if src = dst then Inl (SameFileError src)
                  else if dirname dst \<noteq> [] \<and> dirs w (dirname dst) = None
                  then Inl (FileNotFoundError dst)
                  else Inr (list_entry dst (w\<lparr>files := (files w)(dst \<mapsto> content)\<rparr>))))"

text \<open>\<open>os.listdir(d)\<close>.\<close>

definition listdir :: "world \<Rightarrow> string \<Rightarrow> exc + string list" where
  "listdir w d =
     (case dirs w d of
        Some names \<Rightarrow> Inr names
      | None \<Rightarrow> if files w d \<noteq> None then Inl (NotADirectoryError d)
                else Inl (FileNotFoundError d))"

section \<open>utils.py: copying images into the asset directory\<close>

text \<open>
  \<open>copy_images_to_assets\<close>. The loop carries the list of results and the world; an
  error of \<open>shutil.copy\<close> leaves the function at once, with the world as it is then.
\<close>

fun copy_images_loop ::
    "env \<Rightarrow> string \<Rightarrow> string list \<Rightarrow> string list \<Rightarrow> world \<Rightarrow> (exc + string list) \<times> world" where
  "copy_images_loop e assets_dir [] relative_paths w = (Inr relative_paths, w)"
| "copy_images_loop e assets_dir (image_path # rest) relative_paths w =
     (if path_exists w image_path then
        let base_name = basename image_path;
            name = fst (splitext base_name);
            ext = snd (splitext base_name);
            timestamp = fst (read_clock e w);
            w1 = snd (read_clock e w);
            dest_name = name @ ''_'' @ timestamp @ ext;
            dest_path = join assets_dir dest_name
        in case copy_file e image_path dest_path w1 of
             Inl err \<Rightarrow> (Inl err, w1)
           | Inr w2 \<Rightarrow>
               copy_images_loop e assets_dir rest
                 (relative_paths @ [os_relpath e dest_path]) w2
      else copy_images_loop e assets_dir rest relative_paths w)"

definition copy_images_to_assets ::
    "env \<Rightarrow> string list \<Rightarrow> string \<Rightarrow> world \<Rightarrow> (exc + string list) \<times> world" where
  "copy_images_to_assets e image_paths assets_dir w =
     copy_images_loop e assets_dir image_paths [] w"

section \<open>file_handler.py: the state, loading a spreadsheet file, importing a package\<close>

text \<open>
  The messages that the program shows are Chinese texts; the model keeps what each
  one says. \<open>status\<close> is the value of the status bar, \<open>dialog\<close> a message box: the
  boxes with \<open>Err\<close> are opened by \<open>messagebox.showerror\<close>, the others by
  \<open>messagebox.showinfo\<close>.
\<close>

datatype status =
    StatusIdle
  | StatusImagesImportedFrom string
  | StatusOpened string
  | StatusPackageImported
  | StatusSaved string
  | StatusPackageExported

datatype dialog =
    ErrMissingLibraries
  | ErrOpenFailed exc
  | InfoOpened nat nat
  | ErrNoExcelInPackage
  | ErrImportFailed exc
  | InfoPackageImported
  | ErrXlsxwriterMissing
  | ErrSaveFailed exc
  | InfoSaved string
  | ErrExportFailed exc
  | InfoPackageExported

fun is_error :: "dialog \<Rightarrow> bool" where
  "is_error ErrMissingLibraries = True"
| "is_error (ErrOpenFailed err) = True"
| "is_error (InfoOpened rows cols) = False"
| "is_error ErrNoExcelInPackage = True"
| "is_error (ErrImportFailed err) = True"
| "is_error InfoPackageImported = False"
| "is_error ErrXlsxwriterMissing = True"
| "is_error (ErrSaveFailed err) = True"
| "is_error (InfoSaved excel_assets_dir) = False"
| "is_error (ErrExportFailed err) = True"
| "is_error InfoPackageExported = False"

text \<open>
  The state that \<open>FileHandler\<close> works on: the grid widget (data and headers), its own
  fields \<open>self.assets_dir\<close> and \<open>self.current_file\<close>, the status bar, the message boxes shown
  so far, and the machine. Row heights, which \<open>auto_adjust_row_heights\<close> sets after a
  load, are display state of the widget and are left out.
\<close>

record app =
  sheet_data :: grid
  sheet_headers :: "string list"
  self_assets_dir :: string
  current_file :: "string option"
  status_var :: status
  dialogs :: "dialog list"
  machine :: world

subsection \<open>Copying a directory of assets into the asset directory\<close>

text \<open>
  Where an incoming file goes: under its own name, or, when that path exists already,
  under \<open>name_timestamp.ext\<close>. The second case reads the clock.
\<close>

definition sync_destination :: "env \<Rightarrow> string \<Rightarrow> string \<Rightarrow> world \<Rightarrow> string \<times> world" where
  "sync_destination e assets_dir file w =
     (if path_exists w (join assets_dir file) then
        let name = fst (splitext file);
            ext = snd (splitext file);
            timestamp = fst (read_clock e w);
            new_name = name @ ''_'' @ timestamp @ ext
        in (join assets_dir new_name, snd (read_clock e w))
      else (join assets_dir file, w))"

text \<open>
  The loop \<open>for file in os.listdir(src_dir)\<close>, which \<open>_load_from_excel_file\<close> and
  \<open>import_package\<close> both contain. An error of \<open>shutil.copy2\<close> ends it.
\<close>

fun sync_files :: "env \<Rightarrow> string \<Rightarrow> string \<Rightarrow> string list \<Rightarrow> world \<Rightarrow> exc option \<times> world" where
  "sync_files e src_dir assets_dir [] w = (None, w)"
| "sync_files e src_dir assets_dir (file # rest) w =
     (if isfile w (join src_dir file) then
        (case copy_file e (join src_dir file)
                (fst (sync_destination e assets_dir file w))
                (snd (sync_destination e assets_dir file w)) of
           Inl err \<Rightarrow> (Some err, snd (sync_destination e assets_dir file w))
         | Inr w2 \<Rightarrow> sync_files e src_dir assets_dir rest w2)
      else sync_files e src_dir assets_dir rest w)"

text \<open>Create the asset directory if it is missing, list the source, run the loop.\<close>

definition sync_dir :: "env \<Rightarrow> string \<Rightarrow> string \<Rightarrow> world \<Rightarrow> exc option \<times> world" where
  "sync_dir e src_dir assets_dir w =
     (let w1 = (if \<not> path_exists w assets_dir then makedirs assets_dir w else w)
      in case listdir w1 src_dir of
           Inl err \<Rightarrow> (Some err, w1)
         | Inr names \<Rightarrow> sync_files e src_dir assets_dir names w1)"

subsection \<open>\<open>_load_from_excel_file\<close>\<close>

text \<open>
  The call \<open>pd.read_excel(filename, header=0, dtype=str)\<close> leaves the arguments
  \<open>na_values\<close>, \<open>keep_default_na\<close> and \<open>na_filter\<close> at their defaults. With these,
  pandas reads a cell whose text is one of its default markers as a missing value, as
  it does an empty cell. The markers are those that the pandas documentation lists for
  \<open>na_values\<close>.
\<close>

definition pandas_na_values :: "string list" where
  "pandas_na_values =
     ['''', ''#N/A'', ''#N/A N/A'', ''#NA'', ''-1.#IND'', ''-1.#QNAN'', ''-NaN'', ''-nan'',
      ''1.#IND'', ''1.#QNAN'', ''<NA>'', ''N/A'', ''NA'', ''NULL'', ''NaN'', ''None'',
      ''n/a'', ''nan'', ''null'']"

fun na_filter :: "pyval \<Rightarrow> pyval" where
  "na_filter PNone = PNone"
| "na_filter (PStr s) = (if s \<in> set pandas_na_values then PNone else PStr s)"

text \<open>
  \<open>pd.read_excel\<close>: the file must be there and the parser must accept its content; the
  table returned has \<open>None\<close> for every missing value.
\<close>

definition read_excel :: "env \<Rightarrow> world \<Rightarrow> string \<Rightarrow> exc + dataframe" where
  "read_excel e w filename =
     (case files w filename of
        None \<Rightarrow> Inl (FileNotFoundError filename)
      | Some content \<Rightarrow>
          (case parse_excel e content of
             Inl msg \<Rightarrow> Inl (ExcelReadError msg)
           | Inr raw \<Rightarrow> Inr (raw\<lparr>df_values := map (map na_filter) (df_values raw)\<rparr>)))"

text \<open>\<open>df.fillna("")\<close>.\<close>

definition fillna :: "dataframe \<Rightarrow> dataframe" where
  "fillna df =
     df\<lparr>df_values := map (map (\<lambda>cell. if cell = PNone then PStr [] else cell)) (df_values df)\<rparr>"

text \<open>\<open>str(cell) if cell is not None else ""\<close>.\<close>

fun cell_to_str :: "pyval \<Rightarrow> pyval" where
  "cell_to_str PNone = PStr []"
| "cell_to_str (PStr s) = PStr s"

text \<open>\<open>while len(row) < min_cols: row.append("")\<close>.\<close>

function pad_row :: "nat \<Rightarrow> pyval list \<Rightarrow> pyval list" where
  "pad_row min_cols row =
     (if length row < min_cols then pad_row min_cols (row @ [PStr []]) else row)"
  by pat_completeness auto
termination
  by (relation "measure (\<lambda>(min_cols, row). min_cols - length row)") auto

declare pad_row.simps [simp del]

text \<open>\<open>while len(data) < min_rows: data.append([""] * min_cols)\<close>.\<close>

function pad_rows :: "nat \<Rightarrow> nat \<Rightarrow> grid \<Rightarrow> grid" where
  "pad_rows min_rows min_cols data =
     (if length data < min_rows
      then pad_rows min_rows min_cols (data @ [replicate min_cols (PStr [])])
      else data)"
  by pat_completeness auto
termination
  by (relation "measure (\<lambda>(min_rows, min_cols, data). min_rows - length data)") auto

declare pad_rows.simps [simp del]

text \<open>
  The asset step of the load: copy the sibling directory into the asset directory and
  say so in the status bar.
\<close>

definition load_assets :: "env \<Rightarrow> string \<Rightarrow> app \<Rightarrow> exc option \<times> app" where
  "load_assets e excel_assets_dir st =
     (case sync_dir e excel_assets_dir (self_assets_dir st) (machine st) of
        (Some err, w) \<Rightarrow> (Some err, st\<lparr>machine := w\<rparr>)
      | (None, w) \<Rightarrow>
          (None, st\<lparr>machine := w, status_var := StatusImagesImportedFrom excel_assets_dir\<rparr>))"

text \<open>
  The body of the \<open>try\<close> block: the error that ends it, if one does, and the state
  reached.
\<close>

definition load_try_body :: "env \<Rightarrow> string \<Rightarrow> app \<Rightarrow> exc option \<times> app" where
  "load_try_body e filename st =
     (case read_excel e (machine st) filename of
        Inl err \<Rightarrow> (Some err, st)
      | Inr df0 \<Rightarrow>
          let df = fillna df0;
              headers = df_columns df;
              data = map (map cell_to_str) (df_values df);
              min_rows = max 100 (length data);
              min_cols = max 20 (length headers);
              data = map (pad_row min_cols) data;
              data = pad_rows min_rows min_cols data;
              column_headers = generate_column_headers (int min_cols);
              file_dir = dirname filename;
              file_base = fst (splitext (basename filename));
              excel_assets_dir = join file_dir (file_base @ ''_assets'')
          in case (if path_exists (machine st) excel_assets_dir
                   then load_assets e excel_assets_dir st else (None, st)) of
               (Some err, st1) \<Rightarrow> (Some err, st1)
             | (None, st1) \<Rightarrow>
                 (None, st1\<lparr>sheet_data := data,
                             sheet_headers := column_headers,
                             current_file := Some filename,
                             status_var := StatusOpened filename,
                             dialogs := dialogs st1 @
                               [InfoOpened (length data) (length column_headers)]\<rparr>))"

definition load_from_excel_file :: "env \<Rightarrow> string \<Rightarrow> app \<Rightarrow> app" where
  "load_from_excel_file e filename st =
     (if \<not> PANDAS_AVAILABLE e \<or> \<not> OPENPYXL_AVAILABLE e
      then st\<lparr>dialogs := dialogs st @ [ErrMissingLibraries]\<rparr>
      else case load_try_body e filename st of
             (Some err, st1) \<Rightarrow> st1\<lparr>dialogs := dialogs st1 @ [ErrOpenFailed err]\<rparr>
           | (None, st1) \<Rightarrow> st1)"

subsection \<open>\<open>import_package\<close>\<close>







text \<open>Leaving the \<open>with\<close> block removes the scratch directory and all below it.\<close>

definition below :: "string \<Rightarrow> string \<Rightarrow> bool" where
  "below d p = (p = d \<or> take (length d + 1) p = d @ ''/'')"

definition remove_tree :: "string \<Rightarrow> world \<Rightarrow> world" where
  "remove_tree d w =
     w\<lparr>files := (\<lambda>p. if below d p then None else files w p),
       dirs := (\<lambda>p. if below d p then None else dirs w p)\<rparr>"

definition leave_temp_dir :: "env \<Rightarrow> app \<Rightarrow> app" where
  "leave_temp_dir e st = st\<lparr>machine := remove_tree (temp_dir e) (machine st)\<rparr>"



text \<open>What a run has shown, and whether it left the document as it was.\<close>

definition new_dialogs :: "app \<Rightarrow> app \<Rightarrow> dialog list" where
  "new_dialogs st st' = drop (length (dialogs st)) (dialogs st')"

definition reports_error :: "app \<Rightarrow> app \<Rightarrow> bool" where
  "reports_error st st' = list_ex is_error (new_dialogs st st')"

definition same_document :: "app \<Rightarrow> app \<Rightarrow> bool" where
  "same_document st st' =
     (sheet_data st' = sheet_data st \<and> sheet_headers st' = sheet_headers st \<and>
      current_file st' = current_file st)"

section \<open>file_handler.py: saving a spreadsheet file, exporting a package\<close>

subsection \<open>Writing and removing files, steps that may fail\<close>

text \<open>
  Creating or replacing the file at a path, as \<open>workbook.close()\<close>,
  \<open>zipfile.ZipFile(path, "w")\<close> and \<open>open(path, "w")\<close> do. The directory of the path
  must exist.
\<close>

definition write_file :: "env \<Rightarrow> string \<Rightarrow> string \<Rightarrow> world \<Rightarrow> exc + world" where
  "write_file e path content w =
     (case create_fault e path of
        Some msg \<Rightarrow> Inl (OSError msg)
      | None \<Rightarrow>
          if dirname path \<noteq> [] \<and> dirs w (dirname path) = None
          then Inl (FileNotFoundError path)
          else Inr (list_entry path (w\<lparr>files := (files w)(path \<mapsto> content)\<rparr>)))"


text \<open>
  A step gives the error it raised, if any, and the state it reached. \<open>attempt\<close>
  runs one operation from a given state, which stays when the operation raises;
  \<open>and_then\<close> runs the next step unless the one before raised.
\<close>

definition attempt :: "exc + 's \<Rightarrow> 's \<Rightarrow> exc option \<times> 's" where
  "attempt r s = (case r of Inl err \<Rightarrow> (Some err, s) | Inr s' \<Rightarrow> (None, s'))"

definition and_then :: "exc option \<times> 's \<Rightarrow> ('s \<Rightarrow> exc option \<times> 's) \<Rightarrow> exc option \<times> 's" where
  "and_then r f = (case r of (Some err, s) \<Rightarrow> (Some err, s) | (None, s) \<Rightarrow> f s)"

subsection \<open>Filling the workbook\<close>

text \<open>\<open>xlsxwriter.Workbook(filename)\<close> with its one worksheet, still empty.\<close>

definition new_workbook :: workbook where
  "new_workbook =
     \<lparr>wb_sheet_name = zh_table_data, wb_cells = [], wb_images = [], wb_columns = []\<rparr>"

text \<open>\<open>for col, header in enumerate(headers): worksheet.write(0, col, str(header), header_format)\<close>.\<close>

definition write_headers :: "string list \<Rightarrow> workbook \<Rightarrow> workbook" where
  "write_headers headers wb =
     fold (\<lambda>(col, header) wb. wb\<lparr>wb_cells := wb_cells wb @ [(0, col, header, HeaderFormat)]\<rparr>)
          (enumerate 0 headers) wb"

text \<open>
  The images of one cell in \<open>_save_to_excel_file\<close>: each is looked up in the sibling
  directory under its base name and inserted if it is there; an error of
  \<open>insert_image\<close> is printed and the image skipped.
\<close>

definition insert_images ::
    "env \<Rightarrow> world \<Rightarrow> string \<Rightarrow> nat \<Rightarrow> nat \<Rightarrow> pyval \<Rightarrow> workbook \<Rightarrow> workbook" where
  "insert_images e w excel_assets_dir row col cell_value wb =
     fold (\<lambda>(i, image_path) wb.
             let excel_image_path = join excel_assets_dir (basename image_path)
             in if path_exists w excel_image_path then
                  (if insert_image_fault e excel_image_path then wb
                   else wb\<lparr>wb_images := wb_images wb @
                                [(row + 1, col, excel_image_path, 5 + i * 50)]\<rparr>)
                else wb)
          (enumerate 0 (extract_image_paths cell_value)) wb"


text \<open>
  The two loops over the grid, which \<open>_save_to_excel_file\<close> and \<open>_save_excel_sync\<close>
  both contain: every truthy cell is written as text, one row below its grid row;
  \<open>images\<close> is what follows the write of a cell.
\<close>

definition write_data ::
    "(nat \<Rightarrow> nat \<Rightarrow> pyval \<Rightarrow> workbook \<Rightarrow> workbook) \<Rightarrow> grid \<Rightarrow> workbook \<Rightarrow> workbook" where
  "write_data images data wb =
     fold (\<lambda>(row, row_data) wb.
             fold (\<lambda>(col, cell_value) wb.
                     if truthy cell_value
                     then images row col cell_value
                            (wb\<lparr>wb_cells := wb_cells wb @
                                  [(row + 1, col, py_str cell_value, CellFormat)]\<rparr>)
                     else wb)
                  (enumerate 0 row_data) wb)
          (enumerate 0 data) wb"

text \<open>\<open>for col in range(len(headers)): worksheet.set_column(col, col, 20)\<close>.\<close>

definition set_columns :: "string list \<Rightarrow> workbook \<Rightarrow> workbook" where
  "set_columns headers wb =
     fold (\<lambda>col wb. wb\<lparr>wb_columns := wb_columns wb @ [(col, 20)]\<rparr>) [0..<length headers] wb"

subsection \<open>\<open>_save_to_excel_file\<close>, \<open>save_as_excel_file\<close>, \<open>save_excel_file\<close>\<close>

text \<open>The directory beside the spreadsheet file that holds its images.\<close>

definition sibling_assets_dir :: "string \<Rightarrow> string" where
  "sibling_assets_dir filename =
     join (dirname filename) (fst (splitext (basename filename)) @ ''_assets'')"

text \<open>
  The loop that copies every regular file of the asset directory into the sibling
  directory, over a file of the same name if there is one.
\<close>

fun copy_assets_out ::
    "env \<Rightarrow> string \<Rightarrow> string \<Rightarrow> string list \<Rightarrow> world \<Rightarrow> exc option \<times> world" where
  "copy_assets_out e assets excel_assets_dir [] w = (None, w)"
| "copy_assets_out e assets excel_assets_dir (file # rest) w =
     (if isfile w (join assets file) then
        (case copy_file e (join assets file) (join excel_assets_dir file) w of
           Inl err \<Rightarrow> (Some err, w)
         | Inr w2 \<Rightarrow> copy_assets_out e assets excel_assets_dir rest w2)
      else copy_assets_out e assets excel_assets_dir rest w)"

text \<open>The sibling directory is created if it is missing.\<close>

definition sibling_ready :: "string \<Rightarrow> world \<Rightarrow> world" where
  "sibling_ready filename w =
     (if \<not> path_exists w (sibling_assets_dir filename)
      then makedirs (sibling_assets_dir filename) w else w)"

text \<open>
  The body of the \<open>try\<close> block of \<open>_save_to_excel_file\<close> up to \<open>workbook.close()\<close>: the
  error that ends it, if one does, and the machine as it is then.
\<close>

definition save_steps :: "env \<Rightarrow> string \<Rightarrow> app \<Rightarrow> exc option \<times> world" where
  "save_steps e filename st =
     (let excel_assets_dir = sibling_assets_dir filename;
          w1 = sibling_ready filename (machine st)
      in and_then
           (if path_exists w1 (self_assets_dir st) then
              (case listdir w1 (self_assets_dir st) of
                 Inl err \<Rightarrow> (Some err, w1)
               | Inr names \<Rightarrow> copy_assets_out e (self_assets_dir st) excel_assets_dir names w1)
            else (None, w1))
           (\<lambda>w2.
              let workbook =
                    set_columns (sheet_headers st)
                      (write_data (insert_images e w2 excel_assets_dir) (sheet_data st)
                         (write_headers (sheet_headers st) new_workbook))
              in attempt (write_file e filename (xlsx_bytes e workbook) w2) w2))"

definition save_to_excel_file :: "env \<Rightarrow> string \<Rightarrow> app \<Rightarrow> app" where
  "save_to_excel_file e filename st =
     (if \<not> XLSXWRITER_AVAILABLE e
      then st\<lparr>dialogs := dialogs st @ [ErrXlsxwriterMissing]\<rparr>
      else case save_steps e filename st of
             (Some err, w) \<Rightarrow> st\<lparr>machine := w, dialogs := dialogs st @ [ErrSaveFailed err]\<rparr>
           | (None, w) \<Rightarrow>
               st\<lparr>machine := w,
                  status_var := StatusSaved filename,
                  dialogs := dialogs st @ [InfoSaved (sibling_assets_dir filename)]\<rparr>)"

text \<open>
  \<open>save_as_excel_file\<close>, given the file name that the dialog returns (empty when the
  dialog is cancelled): it saves, then binds the file name.
\<close>

definition save_as_excel_file :: "env \<Rightarrow> string \<Rightarrow> app \<Rightarrow> app" where
  "save_as_excel_file e filename st =
     (if filename \<noteq> []
      then (save_to_excel_file e filename st)\<lparr>current_file := Some filename\<rparr>
      else st)"


subsection \<open>\<open>export_package\<close>\<close>














section \<open>A concrete machine for running the file operations\<close>

text \<open>
  An environment whose clock stands still within one second, where no copy and no
  write fails, whose spreadsheet parser accepts the content \<open>table\<close> (one column, one
  row with the text \<open>v\<close>) and the content \<open>table with NA\<close> (the same with the text
  \<open>NA\<close>), and whose archive reader accepts the content \<open>archive\<close>: an \<open>assets\<close>
  directory with one image, and a spreadsheet file that the parser rejects. The
  directories of the example hold files only, so \<open>os.walk\<close> yields one triple.
\<close>

definition example_env :: env where
  "example_env =
     \<lparr>strftime_now = (\<lambda>k. ''20240101_120000''),
      os_relpath = (\<lambda>p. p),
      copy_fault = (\<lambda>src. None),
      parse_excel = (\<lambda>content.
         if content = ''table''
         then Inr \<lparr>df_columns = [''name''], df_values = [[PStr ''v'']]\<rparr>
         else if content = ''table with NA''
         then Inr \<lparr>df_columns = [''name''], df_values = [[PStr ''NA'']]\<rparr>
         else Inl ''not a spreadsheet''),
      parse_zip = (\<lambda>content.
         if content = ''archive''
         then Inr [(''assets'', Dir [(''a.png'', File ''A'')]), (''data.xlsx'', File ''damaged'')]
         else Inl ''not a zip file''),
      temp_dir = ''/tmp/t'',
      create_fault = (\<lambda>path. None),
      insert_image_fault = (\<lambda>path. False),
      xlsx_bytes = (\<lambda>wb. concat (map (\<lambda>(row, col, s, fmt). s @ ''|'') (wb_cells wb))),
      zip_bytes = (\<lambda>entries. concat (map (\<lambda>(name, content). name @ ''='' @ content @ ''|'') entries)),
      os_walk = (\<lambda>w d. case dirs w d of None \<Rightarrow> [] | Some names \<Rightarrow> [(d, [], names)]),
      PANDAS_AVAILABLE = True,
      OPENPYXL_AVAILABLE = True,
      XLSXWRITER_AVAILABLE = True\<rparr>"


text \<open>
  The same environment, except that two files in the directory \<open>out\<close> are held by
  another program and cannot be written.
\<close>

definition locked_env :: env where
  "locked_env =
     example_env\<lparr>create_fault :=
       (\<lambda>path. if path = ''out/locked.xlsx'' \<or> path = ''out/locked.zip''
               then Some ''Permission denied'' else None)\<rparr>"


text \<open>
  An application state: a one-cell document, an empty asset directory \<open>assets\<close>, and on
  disk a package, a spreadsheet file with its sibling directory of two images, a
  spreadsheet file whose one cell reads \<open>NA\<close>, two pictures of the same base name in
  different directories, and an empty directory \<open>out\<close>.
\<close>

definition example_app :: app where
  "example_app =
     \<lparr>sheet_data = [[PStr ''old'']],
      sheet_headers = [''A''],
      self_assets_dir = ''assets'',
      current_file = None,
      status_var = StatusIdle,
      dialogs = [],
      machine =
        \<lparr>files = [''pkg.zip'' \<mapsto> ''archive'', ''book.xlsx'' \<mapsto> ''table'',
                  ''na.xlsx'' \<mapsto> ''table with NA'',
                  ''book_assets/a.png'' \<mapsto> ''A1'', ''book_assets/b.png'' \<mapsto> ''B1'',
                  ''/a/pic.png'' \<mapsto> ''AAA'', ''/b/pic.png'' \<mapsto> ''BBB''],
         dirs = [''assets'' \<mapsto> [], ''book_assets'' \<mapsto> [''a.png'', ''b.png''],
                 ''out'' \<mapsto> []],
         ticks = 0\<rparr>\<rparr>"

section \<open>Properties of the column headers\<close>

lemma column_number_append:
  "column_number (xs @ ys) = column_number xs * 26 ^ length ys + column_number ys"
  unfolding column_number_def
proof (induction ys rule: rev_induct)
  case Nil
  show ?case by simp
next
  case (snoc y ys)
  then show ?case by (simp add: algebra_simps)
qed

lemma of_char_upper: "k < 26 \<Longrightarrow> (of_char (char_of (65 + k :: nat)) :: nat) = 65 + k"
  by (simp add: of_char_of)

lemma div_mod_26_scaled:
  "(num::nat) mod 26 * 26 ^ n + 26 * (num div 26 * 26 ^ n) = num * 26 ^ n"
proof -
  have "num * 26 ^ n = (num div 26 * 26 + num mod 26) * 26 ^ n" by simp
  also have "\<dots> = num mod 26 * 26 ^ n + 26 * (num div 26 * 26 ^ n)"
    by (simp only: algebra_simps)
  finally show ?thesis by simp
qed

lemma column_number_loop:
  "column_number (column_header_loop num acc) = (num + 1) * 26 ^ length acc + column_number acc"
proof (induction num acc rule: column_header_loop.induct)
  case (1 num header)
  let ?c = "char_of (65 + num mod 26) :: char"
  have c: "(of_char ?c :: nat) = 65 + num mod 26"
    by (rule of_char_upper) simp
  have cons: "column_number (?c # header) =
      (num mod 26 + 1) * 26 ^ length header + column_number header"
    using column_number_append[of "[?c]" header] c by (simp add: column_number_def)
  show ?case
  proof (cases "num div 26 = 0")
    case True
    then have "num mod 26 = num" by (simp add: div_eq_0_iff)
    with True cons show ?thesis
      by (subst column_header_loop.simps) (simp add: Let_def)
  next
    case False
    then have q: "num div 26 - 1 + 1 = num div 26" by simp
    have "column_number (column_header_loop num header) =
          column_number (column_header_loop (num div 26 - 1) (?c # header))"
      using False by (subst column_header_loop.simps) (simp add: Let_def)
    also have "\<dots> = (num div 26) * 26 ^ length (?c # header) + column_number (?c # header)"
      using 1[OF refl refl False] q by simp
    also have "\<dots> = (num + 1) * 26 ^ length header + column_number header"
      using cons div_mod_26_scaled[of num "length header"] by (simp add: algebra_simps)
    finally show ?thesis .
  qed
qed

lemma upper_loop:
  "\<forall>c\<in>set acc. upper_letter c \<Longrightarrow> \<forall>c\<in>set (column_header_loop num acc). upper_letter c"
proof (induction num acc rule: column_header_loop.induct)
  case (1 num header)
  let ?c = "char_of (65 + num mod 26) :: char"
  have c: "upper_letter ?c"
    using of_char_upper[of "num mod 26"] by (simp add: upper_letter_def)
  show ?case
  proof (cases "num div 26 = 0")
    case True
    with c 1(2) show ?thesis
      by (subst column_header_loop.simps) (simp add: Let_def)
  next
    case False
    have "\<forall>c\<in>set (column_header_loop (num div 26 - 1) (?c # header)). upper_letter c"
      using 1(1)[OF refl refl False] c 1(2) by simp
    with False show ?thesis
      by (subst column_header_loop.simps) (simp add: Let_def)
  qed
qed

lemma fold_snoc_map: "fold (\<lambda>i hs. hs @ [f i]) xs acc = acc @ map f xs"
  by (induction xs arbitrary: acc) simp_all

lemma generate_column_headers_map:
  "generate_column_headers n = map (\<lambda>i. column_header_loop i []) [0..<nat n]"
  by (simp add: generate_column_headers_def fold_snoc_map)

lemma first_28_headers:
  "map (\<lambda>i. column_header_loop i []) [0..<28] =
     (map (\<lambda>c. [c]) ''ABCDEFGHIJKLMNOPQRSTUVWXYZ'' @ [''AA'', ''AB''])"
  by code_simp

text \<open>
  C8. For every count \<open>n\<close>, \<open>generate_column_headers n\<close> is the list of the first
  \<open>n\<close> spreadsheet column names in order: it has \<open>n\<close> entries (none for a negative
  count), entry \<open>i\<close> is a word over A..Z that denotes the number \<open>i + 1\<close>, and the
  entries at the indices 0 to 27 are A, B, ..., Z, AA, AB.
\<close>

theorem generate_column_headers_spreadsheet_names:
  "length (generate_column_headers n) = nat n \<and>
   (\<forall>i < nat n. column_number (generate_column_headers n ! i) = i + 1 \<and>
                (\<forall>c \<in> set (generate_column_headers n ! i). upper_letter c)) \<and>
   take 28 (generate_column_headers n) =
     take (nat n)
       (map (\<lambda>c. [c]) ''ABCDEFGHIJKLMNOPQRSTUVWXYZ'' @ [''AA'', ''AB''])"
proof (intro conjI allI impI)
  show "length (generate_column_headers n) = nat n"
    by (simp add: generate_column_headers_map)
next
  fix i assume "i < nat n"
  then have nth: "generate_column_headers n ! i = column_header_loop i []"
    by (simp add: generate_column_headers_map)
  show "column_number (generate_column_headers n ! i) = i + 1"
    using column_number_loop[of i "[]"] by (simp add: nth column_number_def)
  show "\<forall>c \<in> set (generate_column_headers n ! i). upper_letter c"
    using upper_loop[of "[]" i] by (simp add: nth)
next
  have "take 28 (generate_column_headers n) =
        map (\<lambda>i. column_header_loop i []) (take 28 [0..<nat n])"
    by (simp add: generate_column_headers_map take_map)
  also have "take 28 [0..<nat n] = take (nat n) [0..<28]"
  proof (cases "nat n \<le> 28")
    case True
    then show ?thesis using take_upt[of 0 "nat n" 28] by simp
  next
    case False
    then show ?thesis using take_upt[of 0 28 "nat n"] by simp
  qed
  also have "map (\<lambda>i. column_header_loop i []) (take (nat n) [0..<28]) =
             take (nat n) (map (\<lambda>i. column_header_loop i []) [0..<28])"
    by (simp only: take_map)
  finally show "take 28 (generate_column_headers n) =
     take (nat n)
       (map (\<lambda>c. [c]) ''ABCDEFGHIJKLMNOPQRSTUVWXYZ'' @ [''AA'', ''AB''])"
    by (simp only: first_28_headers)
qed

theorem generate_column_headers_spreadsheet_names_witness:
  "length (generate_column_headers 28) = 28 \<and>
   column_number (generate_column_headers 28 ! 27) = 28 \<and>
   generate_column_headers 28 ! 0 = ''A'' \<and>
   generate_column_headers 28 ! 25 = ''Z'' \<and>
   generate_column_headers 28 ! 26 = ''AA'' \<and>
   generate_column_headers 28 ! 27 = ''AB''"
proof -
  have len: "length (generate_column_headers 28) = 28"
    using generate_column_headers_spreadsheet_names[of 28] by simp
  have t: "take 28 (generate_column_headers 28) =
     (map (\<lambda>c. [c]) ''ABCDEFGHIJKLMNOPQRSTUVWXYZ'' @ [''AA'', ''AB''])"
    using generate_column_headers_spreadsheet_names[of 28] by simp
  have all: "generate_column_headers 28 =
     (map (\<lambda>c. [c]) ''ABCDEFGHIJKLMNOPQRSTUVWXYZ'' @ [''AA'', ''AB''])"
    using t len by simp
  have n: "column_number (generate_column_headers 28 ! 27) = 28"
    using generate_column_headers_spreadsheet_names[of 28] by simp
  show ?thesis using len n by (simp add: all)
qed

section \<open>Properties of the cell codec\<close>

lemma set_strip: "set (strip s) \<subseteq> set s"
proof -
  have "set (rev (dropWhile isspace (rev (dropWhile isspace s)))) \<subseteq> set (dropWhile isspace s)"
    using set_dropWhileD[of _ isspace "rev (dropWhile isspace s)"] by auto
  also have "\<dots> \<subseteq> set s" using set_dropWhileD[of _ isspace s] by auto
  finally show ?thesis by (simp add: strip_def lstrip_def rstrip_def)
qed

lemma rstrip_decomp: "t = rstrip t @ rev (takeWhile isspace (rev t))"
proof -
  have "t = rev (takeWhile isspace (rev t) @ dropWhile isspace (rev t))"
    by (simp only: takeWhile_dropWhile_id rev_rev_ident)
  then show ?thesis by (simp only: rev_append rstrip_def)
qed

lemma last_rstrip: "rstrip t \<noteq> [] \<Longrightarrow> \<not> isspace (last (rstrip t))"
  using hd_dropWhile[of isspace "rev t"] by (simp add: rstrip_def last_rev)

lemma hd_rstrip: "rstrip t \<noteq> [] \<Longrightarrow> hd (rstrip t) = hd t"
  using rstrip_decomp[of t] by (metis hd_append2)

lemma strip_ends:
  assumes "strip s \<noteq> []"
  shows "\<not> isspace (hd (strip s))" and "\<not> isspace (last (strip s))"
proof -
  from assms have ne: "lstrip s \<noteq> []" by (auto simp: strip_def rstrip_def)
  then have "\<not> isspace (hd (lstrip s))" by (simp add: lstrip_def hd_dropWhile)
  with assms show "\<not> isspace (hd (strip s))" by (simp add: strip_def hd_rstrip)
  from assms show "\<not> isspace (last (strip s))" by (simp add: strip_def last_rstrip)
qed

lemma strip_id:
  assumes "s \<noteq> []" "\<not> isspace (hd s)" "\<not> isspace (last s)"
  shows "strip s = s"
proof -
  from assms have l: "lstrip s = s" by (cases s) (simp_all add: lstrip_def)
  from assms(1) obtain a as where r: "rev s = a # as" by (cases "rev s") auto
  then have "a = last s" using hd_rev[of s] by simp
  with assms(3) have "dropWhile isspace (a # as) = a # as" by simp
  with r have "dropWhile isspace (rev s) = rev s" by (simp only:)
  then show ?thesis by (simp add: strip_def l rstrip_def)
qed

lemma split_on_ne: "split_on sep s \<noteq> []"
  by (induction s) (simp_all split: list.splits)

lemma split_on_pieces: "p \<in> set (split_on sep s) \<Longrightarrow> sep \<notin> set p \<and> set p \<subseteq> set s"
proof (induction s arbitrary: p)
  case Nil then show ?case by simp
next
  case (Cons c cs)
  show ?case
  proof (cases "c = sep")
    case True with Cons show ?thesis by auto
  next
    case False
    obtain q qs where q: "split_on sep cs = q # qs" using split_on_ne[of sep cs] by (cases "split_on sep cs") auto
    with False Cons.prems have "p = c # q \<or> p \<in> set qs" by simp
    then show ?thesis
    proof
      assume "p = c # q"
      moreover have "sep \<notin> set q \<and> set q \<subseteq> set cs" using Cons.IH[of q] q by simp
      ultimately show ?thesis using False by auto
    next
      assume "p \<in> set qs"
      then have "sep \<notin> set p \<and> set p \<subseteq> set cs" using Cons.IH[of p] q by simp
      then show ?thesis by auto
    qed
  qed
qed

lemma capture_group_subset: "run \<noteq> [] \<Longrightarrow> set (capture_group run) \<subseteq> set run"
  using set_dropWhileD[of _ isspace run] by (auto simp: capture_group_def)

lemma findall_img_no_bracket:
  "g \<in> set (findall_img s) \<Longrightarrow> c \<in> set g \<Longrightarrow> not_bracket c"
proof (induction s arbitrary: g rule: findall_img.induct)
  case 1 then show ?case by simp
next
  case (2 a cs)
  show ?case
  proof (cases "match_tag (a # cs)")
    case None with 2 show ?thesis by simp
  next
    case (Some r)
    show ?thesis
    proof (cases "takeWhile not_bracket r = []")
      case True with Some 2 show ?thesis by simp
    next
      case False
      with Some 2(4) have "g = capture_group (takeWhile not_bracket r) \<or> g \<in> set (findall_img (dropWhile not_bracket r))"
        by simp
      then show ?thesis
      proof
        assume "g = capture_group (takeWhile not_bracket r)"
        with 2(5) capture_group_subset[OF False] have "c \<in> set (takeWhile not_bracket r)" by auto
        then show ?thesis by (rule set_takeWhileD[THEN conjunct2])
      next
        assume "g \<in> set (findall_img (dropWhile not_bracket r))"
        then show ?thesis using 2(3)[OF Some False] 2(5) by simp
      qed
    qed
  qed
qed

lemma fold_append_concat: "fold (\<lambda>m acc. acc @ f m) ms acc0 = acc0 @ concat (map f ms)"
  by (induction ms arbitrary: acc0) simp_all

lemma extract_image_paths_concat:
  "extract_image_paths v =
     (if truthy v then concat (map match_paths (findall_img (py_str v))) else [])"
  by (simp add: extract_image_paths_def fold_append_concat)

lemma match_paths_elem:
  assumes "x \<in> set (match_paths m)"
  shows "x \<noteq> []" "\<not> isspace (hd x)" "\<not> isspace (last x)" "CHR '';'' \<notin> set x" "set x \<subseteq> set m"
proof -
  from assms obtain p where p: "p \<in> set (split_on CHR '';'' m)" "x = strip p" "strip p \<noteq> []"
    by (auto simp: match_paths_def)
  show "x \<noteq> []" using p by simp
  show "\<not> isspace (hd x)" "\<not> isspace (last x)" using strip_ends[of p] p by simp_all
  have "CHR '';'' \<notin> set p \<and> set p \<subseteq> set m" using split_on_pieces[OF p(1)] .
  with set_strip[of p] p show "CHR '';'' \<notin> set x" "set x \<subseteq> set m" by auto
qed

text \<open>
  C10. For every cell value, \<open>None\<close> and the empty string included,
  \<open>extract_image_paths\<close> returns a list whose elements are non-empty, begin and end
  with a character that is not white space, and contain none of \<open>[\<close>, \<open>]\<close> and
  \<open>;\<close>. For a falsy value the list is empty and \<open>clean_text_content\<close>
  returns the empty string. Both functions are total: no input makes them raise.
\<close>

theorem extract_image_paths_wellformed:
  "(\<forall>x \<in> set (extract_image_paths v).
       x \<noteq> [] \<and> \<not> isspace (hd x) \<and> \<not> isspace (last x) \<and>
       CHR ''['' \<notin> set x \<and> CHR '']'' \<notin> set x \<and> CHR '';'' \<notin> set x) \<and>
   (\<not> truthy v \<longrightarrow> extract_image_paths v = [] \<and> clean_text_content v = [])"
proof (intro conjI ballI impI)
  fix x assume x: "x \<in> set (extract_image_paths v)"
  then obtain m where m: "m \<in> set (findall_img (py_str v))" "x \<in> set (match_paths m)"
    by (auto simp: extract_image_paths_concat split: if_splits)
  show "x \<noteq> []" "\<not> isspace (hd x)" "\<not> isspace (last x)" "CHR '';'' \<notin> set x"
    using match_paths_elem[OF m(2)] by simp_all
  have nb: "\<forall>c \<in> set x. not_bracket c"
    using match_paths_elem(5)[OF m(2)] findall_img_no_bracket[OF m(1)] by auto
  show "CHR ''['' \<notin> set x" using nb by (auto simp: not_bracket_def)
  show "CHR '']'' \<notin> set x" using nb by (auto simp: not_bracket_def)
next
  assume "\<not> truthy v"
  then show "extract_image_paths v = []" by (simp add: extract_image_paths_def)
next
  assume "\<not> truthy v"
  then show "clean_text_content v = []" by (simp add: clean_text_content_def)
qed

theorem extract_image_paths_wellformed_witness:
  "extract_image_paths (PStr ''note [IMGS] a.png ;  ; b c.png '') = [''a.png'', ''b c.png''] \<and>
   clean_path ''a.png'' \<and> clean_path ''b c.png'' \<and>
   \<not> truthy PNone \<and> extract_image_paths PNone = [] \<and> clean_text_content PNone = [] \<and>
   \<not> truthy (PStr []) \<and> extract_image_paths (PStr []) = [] \<and> clean_text_content (PStr []) = []"
proof -
  have e: "extract_image_paths (PStr ''note [IMGS] a.png ;  ; b c.png '') = [''a.png'', ''b c.png'']"
    by code_simp
  have "clean_path ''a.png'' \<and> clean_path ''b c.png''"
    using extract_image_paths_wellformed[of "PStr ''note [IMGS] a.png ;  ; b c.png ''"]
    unfolding e clean_path_def by simp
  then show ?thesis
    using extract_image_paths_wellformed[of PNone] extract_image_paths_wellformed[of "PStr []"]
    by (simp add: e)
qed

lemma no_tag_findall: "\<not> has_tag s \<Longrightarrow> findall_img s = []"
  by (induction s) simp_all

lemma no_tag_sub: "\<not> has_tag s \<Longrightarrow> sub_img s = s"
  by (induction s) simp_all

lemma take_append_fresh:
  assumes "take n (xs @ c # rest) = p" "length p = n" "c \<notin> set p"
  shows "take n xs = p"
proof (cases "n \<le> length xs")
  case True
  with assms(1) show ?thesis by simp
next
  case False
  then have "take n (xs @ c # rest) = xs @ c # take (n - length xs - 1) rest"
    by (simp add: take_Cons')
  with assms(1) have "c \<in> set p" by auto
  with assms(3) show ?thesis by simp
qed

lemma match_tag_append_newline:
  assumes "match_tag xs = None"
  shows "match_tag (xs @ CHR 0x0A # rest) = None"
proof -
  have a: "take 6 (xs @ CHR 0x0A # rest) \<noteq> ''[IMGS]''"
  proof
    assume "take 6 (xs @ CHR 0x0A # rest) = ''[IMGS]''"
    then have "take 6 xs = ''[IMGS]''" by (rule take_append_fresh) simp_all
    with assms show False by (simp add: match_tag_def)
  qed
  have b: "take 5 (xs @ CHR 0x0A # rest) \<noteq> ''[IMG]''"
  proof
    assume "take 5 (xs @ CHR 0x0A # rest) = ''[IMG]''"
    then have "take 5 xs = ''[IMG]''" by (rule take_append_fresh) simp_all
    with assms show False by (simp add: match_tag_def split: if_splits)
  qed
  from a b show ?thesis by (simp add: match_tag_def)
qed

lemma match_tag_newline: "match_tag (CHR 0x0A # t) = None"
  by (simp add: match_tag_def)

lemma findall_img_text_then: "\<not> has_tag xs \<Longrightarrow> findall_img (xs @ CHR 0x0A # t) = findall_img t"
proof (induction xs)
  case Nil show ?case by (simp add: match_tag_newline)
next
  case (Cons a xs)
  then have "match_tag (a # xs) = None" by simp
  then have "match_tag ((a # xs) @ CHR 0x0A # t) = None" by (rule match_tag_append_newline)
  with Cons show ?case by simp
qed

lemma sub_img_text_then: "\<not> has_tag xs \<Longrightarrow> sub_img (xs @ CHR 0x0A # t) = xs @ CHR 0x0A # sub_img t"
proof (induction xs)
  case Nil show ?case by (simp add: match_tag_newline)
next
  case (Cons a xs)
  then have "match_tag (a # xs) = None" by simp
  then have "match_tag ((a # xs) @ CHR 0x0A # t) = None" by (rule match_tag_append_newline)
  with Cons show ?case by simp
qed

lemma match_tag_IMG: "match_tag (''[IMG]'' @ b) = Some b"
  by (simp add: match_tag_def)

lemma match_tag_IMGS: "match_tag (''[IMGS]'' @ b) = Some b"
  by (simp add: match_tag_def)

lemma takeWhile_run: "\<forall>c \<in> set b. not_bracket c \<Longrightarrow> takeWhile not_bracket b = b"
  by (simp add: takeWhile_eq_all_conv)

lemma dropWhile_run: "\<forall>c \<in> set b. not_bracket c \<Longrightarrow> dropWhile not_bracket b = []"
  by simp

lemma findall_img_tag:
  assumes "\<forall>c \<in> set b. not_bracket c" "b \<noteq> []"
  shows "findall_img (''[IMG]'' @ b) = [capture_group b]"
    and "findall_img (''[IMGS]'' @ b) = [capture_group b]"
proof -
  have "findall_img (CHR ''['' # ''IMG]'' @ b) = [capture_group b]"
    using match_tag_IMG[of b] assms
    by (simp only: findall_img.simps) (simp add: takeWhile_run dropWhile_run)
  then show "findall_img (''[IMG]'' @ b) = [capture_group b]" by simp
  have "findall_img (CHR ''['' # ''IMGS]'' @ b) = [capture_group b]"
    using match_tag_IMGS[of b] assms
    by (simp only: findall_img.simps) (simp add: takeWhile_run dropWhile_run)
  then show "findall_img (''[IMGS]'' @ b) = [capture_group b]" by simp
qed

lemma sub_img_tag:
  assumes "\<forall>c \<in> set b. not_bracket c"
  shows "sub_img (''[IMG]'' @ b) = []" and "sub_img (''[IMGS]'' @ b) = []"
proof -
  have "sub_img (CHR ''['' # ''IMG]'' @ b) = []"
    using match_tag_IMG[of b] assms
    by (simp only: sub_img.simps) (simp add: dropWhile_run)
  then show "sub_img (''[IMG]'' @ b) = []" by simp
  have "sub_img (CHR ''['' # ''IMGS]'' @ b) = []"
    using match_tag_IMGS[of b] assms
    by (simp only: sub_img.simps) (simp add: dropWhile_run)
  then show "sub_img (''[IMGS]'' @ b) = []" by simp
qed

lemma capture_group_space:
  assumes "q \<noteq> []" "\<not> isspace (hd q)"
  shows "capture_group (CHR '' '' # q) = q"
proof -
  have "dropWhile isspace (CHR '' '' # q) = q"
    using assms by (cases q) (simp_all add: isspace_def)
  with assms(1) show ?thesis by (simp only: capture_group_def) simp
qed

lemma split_on_none: "sep \<notin> set p \<Longrightarrow> split_on sep p = [p]"
  by (induction p) auto

lemma split_on_append: "sep \<notin> set p \<Longrightarrow> split_on sep (p @ sep # rest) = p # split_on sep rest"
  by (induction p) auto

lemma split_on_join:
  "ps \<noteq> [] \<Longrightarrow> \<forall>p \<in> set ps. CHR '';'' \<notin> set p \<Longrightarrow>
   split_on CHR '';'' (py_join ''; '' ps) = hd ps # map ((#) CHR '' '') (tl ps)"
proof (induction "''; ''" ps rule: py_join.induct)
  case 1 then show ?case by simp
next
  case (2 x) then show ?case by (simp add: split_on_none)
next
  case (3 x y ys)
  have "split_on CHR '';'' (x @ CHR '';'' # CHR '' '' # py_join ''; '' (y # ys)) =
        x # split_on CHR '';'' (CHR '' '' # py_join ''; '' (y # ys))"
    using 3(3) by (intro split_on_append) simp
  moreover have "split_on CHR '';'' (py_join ''; '' (y # ys)) = y # map ((#) CHR '' '') ys"
    using 3 by simp
  ultimately show ?case by simp
qed

lemma strip_space_cons:
  assumes "p \<noteq> []" "\<not> isspace (hd p)" "\<not> isspace (last p)"
  shows "strip (CHR '' '' # p) = p"
proof -
  have "lstrip (CHR '' '' # p) = lstrip p" by (simp add: lstrip_def isspace_def)
  then have "strip (CHR '' '' # p) = strip p" by (simp add: strip_def)
  with strip_id[OF assms] show ?thesis by simp
qed

lemma match_paths_single: "clean_path p \<Longrightarrow> match_paths p = [p]"
  by (simp add: match_paths_def split_on_none clean_path_def strip_id)

lemma match_paths_join:
  assumes "ps \<noteq> []" "\<forall>p \<in> set ps. clean_path p"
  shows "match_paths (py_join ''; '' ps) = ps"
proof -
  from assms(1) obtain q qs where ps: "ps = q # qs" by (cases ps) auto
  have s: "split_on CHR '';'' (py_join ''; '' (q # qs)) = q # map ((#) CHR '' '') qs"
    using split_on_join[OF assms(1)] assms(2) ps by (simp add: clean_path_def)
  have q: "strip q = q" "q \<noteq> []" using assms(2) ps by (simp_all add: clean_path_def strip_id)
  have qs: "\<forall>p \<in> set qs. strip (CHR '' '' # p) = p \<and> p \<noteq> []"
    using assms(2) ps by (simp add: clean_path_def strip_space_cons)
  have "map strip (filter (\<lambda>path. strip path \<noteq> []) (map ((#) CHR '' '') qs)) = qs"
    using qs by (induction qs) simp_all
  with q show ?thesis by (simp add: match_paths_def s ps)
qed

lemma last_dropWhile: "dropWhile P xs \<noteq> [] \<Longrightarrow> last (dropWhile P xs) = last xs"
  by (induction xs) (auto split: if_splits)

lemma collapse_newlines_Nil: "collapse_newlines s = [] \<longleftrightarrow> s = []"
  by (cases s) simp_all

lemma hd_collapse_newlines: "hd (collapse_newlines s) = hd s"
  by (cases s) simp_all

lemma last_collapse_newlines: "last (collapse_newlines s) = last s"
proof (induction s rule: collapse_newlines.induct)
  case 1 show ?case by simp
next
  case (2 c cs)
  show ?case
  proof (cases "c = CHR 0x0A")
    case False
    with 2 show ?thesis by (cases cs) (simp_all add: collapse_newlines_Nil)
  next
    case True
    show ?thesis
    proof (cases "dropWhile (\<lambda>d. d = CHR 0x0A) cs = []")
      case e: True
      then have "\<forall>x \<in> set cs. x = CHR 0x0A" by (simp add: dropWhile_eq_Nil_conv)
      then have "cs \<noteq> [] \<Longrightarrow> last cs = CHR 0x0A" using last_in_set by blast
      then have "last (c # cs) = CHR 0x0A" using True by simp
      moreover have "collapse_newlines (c # cs) = [CHR 0x0A]"
        using True by (simp add: e del: dropWhile_eq_Nil_conv)
      ultimately show ?thesis by simp
    next
      case ne: False
      then have cs: "cs \<noteq> []" by auto
      from ne have cne: "collapse_newlines (dropWhile (\<lambda>d. d = CHR 0x0A) cs) \<noteq> []"
        by (simp only: collapse_newlines_Nil not_False_eq_True)
      have "collapse_newlines (c # cs) = CHR 0x0A # collapse_newlines (dropWhile (\<lambda>d. d = CHR 0x0A) cs)"
        using True by simp
      then have "last (collapse_newlines (c # cs)) = last (collapse_newlines (dropWhile (\<lambda>d. d = CHR 0x0A) cs))"
        using cne by (simp only: last.simps if_False)
      also have "\<dots> = last cs" using 2(1)[OF True] last_dropWhile[OF ne] by simp
      also have "\<dots> = last (c # cs)" using cs by simp
      finally show ?thesis .
    qed
  qed
qed

lemma collapse_newlines_snoc:
  "s \<noteq> [] \<Longrightarrow> last s \<noteq> CHR 0x0A \<Longrightarrow>
   collapse_newlines (s @ [CHR 0x0A]) = collapse_newlines s @ [CHR 0x0A]"
proof (induction s rule: collapse_newlines.induct)
  case 1 then show ?case by simp
next
  case (2 c cs)
  show ?case
  proof (cases "c = CHR 0x0A")
    case False
    show ?thesis
    proof (cases "cs = []")
      case True with False show ?thesis by simp
    next
      case ne: False
      with 2(2)[OF False ne] 2(4) False show ?thesis by simp
    qed
  next
    case True
    with 2(4) have ne: "cs \<noteq> []" by auto
    with 2(4) have l: "last cs \<noteq> CHR 0x0A" by simp
    then have ex: "\<exists>x \<in> set cs. \<not> x = CHR 0x0A" using ne last_in_set by blast
    then have d: "dropWhile (\<lambda>d. d = CHR 0x0A) (cs @ [CHR 0x0A]) = dropWhile (\<lambda>d. d = CHR 0x0A) cs @ [CHR 0x0A]"
      by (auto simp: dropWhile_append)
    from ex have dne: "dropWhile (\<lambda>d. d = CHR 0x0A) cs \<noteq> []" by (simp add: dropWhile_eq_Nil_conv)
    with l have dl: "last (dropWhile (\<lambda>d. d = CHR 0x0A) cs) \<noteq> CHR 0x0A" by (simp add: last_dropWhile)
    show ?thesis using True d 2(1)[OF True dne dl] by simp
  qed
qed

lemma strip_snoc_newline:
  assumes "u \<noteq> []" "\<not> isspace (hd u)" "\<not> isspace (last u)"
  shows "strip (u @ [CHR 0x0A]) = u"
proof -
  from assms have l: "lstrip (u @ [CHR 0x0A]) = u @ [CHR 0x0A]" by (cases u) (simp_all add: lstrip_def)
  from assms(1) obtain a as where r: "rev u = a # as" by (cases "rev u") auto
  then have "a = last u" using hd_rev[of u] by simp
  with assms(3) have "dropWhile isspace (CHR 0x0A # a # as) = a # as" by (simp add: isspace_def)
  with r have "dropWhile isspace (rev (u @ [CHR 0x0A])) = rev u" by simp
  then show ?thesis by (simp add: strip_def l rstrip_def)
qed

lemma strip_Nil: "strip [] = []"
  by (simp add: strip_def lstrip_def rstrip_def)

lemma clean_text_of_tagged:
  assumes "\<not> has_tag (strip T)" "strip T \<noteq> []" "\<forall>c \<in> set b. not_bracket c"
    "tag = ''[IMG]'' @ b \<or> tag = ''[IMGS]'' @ b"
  shows "strip (collapse_newlines (sub_img (strip T @ [CHR 0x0A] @ tag))) = collapse_newlines (strip T)"
proof -
  let ?t = "strip T"
  have ends: "\<not> isspace (hd ?t)" "\<not> isspace (last ?t)" using strip_ends[OF assms(2)] by simp_all
  then have lnl: "last ?t \<noteq> CHR 0x0A" by (auto simp: isspace_def)
  have "sub_img tag = []" using assms(3,4) sub_img_tag[of b] by auto
  then have "sub_img (?t @ [CHR 0x0A] @ tag) = ?t @ [CHR 0x0A]"
    using sub_img_text_then[OF assms(1), of tag] by simp
  moreover have "collapse_newlines (?t @ [CHR 0x0A]) = collapse_newlines ?t @ [CHR 0x0A]"
    using assms(2) lnl by (rule collapse_newlines_snoc)
  moreover have "strip (collapse_newlines ?t @ [CHR 0x0A]) = collapse_newlines ?t"
    using assms(2) ends
    by (intro strip_snoc_newline) (simp_all add: collapse_newlines_Nil hd_collapse_newlines last_collapse_newlines)
  ultimately show ?thesis by simp
qed

lemma set_py_join: "set (py_join sep ps) \<subseteq> set sep \<union> \<Union> (set ` set ps)"
  by (induction sep ps rule: py_join.induct) auto

lemma py_join_hd:
  "ps \<noteq> [] \<Longrightarrow> hd ps \<noteq> [] \<Longrightarrow> py_join sep ps \<noteq> [] \<and> hd (py_join sep ps) = hd (hd ps)"
  by (induction sep ps rule: py_join.induct) simp_all

lemma clean_path_not_bracket: "clean_path p \<Longrightarrow> \<forall>c \<in> set p. not_bracket c"
  by (auto simp: clean_path_def not_bracket_def)

lemma image_tag_decodes:
  assumes "R \<noteq> []" "\<forall>p \<in> set R. clean_path p"
  defines "tag \<equiv> (if length R = 1 then ''[IMG] '' @ hd R else ''[IMGS] '' @ py_join ''; '' R)"
  shows "concat (map match_paths (findall_img tag)) = R" and "sub_img tag = []" and "tag \<noteq> []"
    and "\<exists>b. (\<forall>c \<in> set b. not_bracket c) \<and> (tag = ''[IMG]'' @ b \<or> tag = ''[IMGS]'' @ b)"
proof -
  define j where "j = (if length R = 1 then hd R else py_join ''; '' R)"
  from assms(1) obtain q qs where R: "R = q # qs" by (cases R) auto
  have q: "clean_path q" using assms(2) R by simp
  then have qne: "q \<noteq> []" "\<not> isspace (hd q)" by (simp_all add: clean_path_def)
  have tag: "tag = (if length R = 1 then ''[IMG]'' else ''[IMGS]'') @ CHR '' '' # j"
    by (simp add: tag_def j_def)
  have jne: "j \<noteq> []" "\<not> isspace (hd j)"
    using py_join_hd[of R "''; ''"] R qne by (simp_all add: j_def)
  have "\<forall>c \<in> set j. not_bracket c"
  proof
    fix c assume "c \<in> set j"
    then have "c \<in> set ''; '' \<or> (\<exists>p \<in> set R. c \<in> set p)"
      using set_py_join[of "''; ''" R] R by (auto simp: j_def split: if_splits)
    then show "not_bracket c"
      using assms(2) clean_path_not_bracket by (auto simp: not_bracket_def)
  qed
  then have nb: "\<forall>c \<in> set (CHR '' '' # j). not_bracket c" by (simp add: not_bracket_def)
  have paths: "match_paths j = R"
  proof (cases "length R = 1")
    case True
    then have "R = [q]" using R by simp
    then show ?thesis using match_paths_single[OF q] by (simp add: j_def)
  next
    case False
    then show ?thesis using match_paths_join[OF assms(1,2)] by (simp add: j_def)
  qed
  have "findall_img tag = [capture_group (CHR '' '' # j)]"
    using findall_img_tag[OF nb] by (simp add: tag)
  then show "concat (map match_paths (findall_img tag)) = R"
    using capture_group_space[OF jne] paths by simp
  show "sub_img tag = []" using sub_img_tag[OF nb] by (simp add: tag)
  show "tag \<noteq> []" by (simp add: tag)
  show "\<exists>b. (\<forall>c \<in> set b. not_bracket c) \<and> (tag = ''[IMG]'' @ b \<or> tag = ''[IMGS]'' @ b)"
    using nb tag by (intro exI[of _ "CHR '' '' # j"]) simp
qed

text \<open>
  C1 (amended). Let \<open>I\<close> be a non-empty list of paths such that, once the absolute ones
  are rewritten relative, every path is non-empty, has no white space at either end and
  contains none of \<open>[\<close>, \<open>]\<close>, \<open>;\<close>, and let the trimmed text \<open>T\<close> hold no image
  tag. Then decoding the encoded cell gives the trimmed text with every run of newlines
  collapsed to one, and the list of rewritten paths. When no path is absolute and the
  trimmed text has no run of newlines, this is \<open>(trim T, I)\<close>.
\<close>

theorem decode_encode_roundtrip:
  assumes "I \<noteq> []"
    and "\<forall>p \<in> set (to_relative_paths relpath I). clean_path p"
    and "\<not> has_tag (strip T)"
  shows "decode (PStr (format_cell_with_images relpath T I)) =
           (collapse_newlines (strip T), to_relative_paths relpath I) \<and>
         ((\<forall>p \<in> set I. \<not> isabs p) \<and> collapse_newlines (strip T) = strip T \<longrightarrow>
            decode (PStr (format_cell_with_images relpath T I)) = (strip T, I))"
proof -
  let ?R = "to_relative_paths relpath I"
  let ?tag = "(if length ?R = 1 then ''[IMG] '' @ hd ?R else ''[IMGS] '' @ py_join ''; '' ?R)"
  let ?V = "format_cell_with_images relpath T I"
  have Rne: "?R \<noteq> []" using assms(1) by (simp add: to_relative_paths_def)
  have V: "?V = (if strip T \<noteq> [] then strip T @ [CHR 0x0A] @ ?tag else ?tag)"
    using assms(1) strip_Nil by (auto simp: format_cell_with_images_def Let_def)
  note tagp = image_tag_decodes[OF Rne assms(2)]
  have Vne: "?V \<noteq> []" using tagp(3) by (simp add: V)
  have paths: "extract_image_paths (PStr ?V) = ?R"
  proof (cases "strip T = []")
    case True
    then show ?thesis using tagp(1) Vne by (simp add: extract_image_paths_concat V)
  next
    case False
    have "findall_img (strip T @ CHR 0x0A # ?tag) = findall_img ?tag"
      using assms(3) by (rule findall_img_text_then)
    then show ?thesis using tagp(1) Vne False by (simp add: extract_image_paths_concat V)
  qed
  have cleaned: "clean_text_content (PStr ?V) = collapse_newlines (strip T)"
  proof (cases "strip T = []")
    case True
    then show ?thesis using tagp(2) Vne by (simp add: clean_text_content_def V strip_Nil)
  next
    case False
    from tagp(4) obtain b where b: "\<forall>c \<in> set b. not_bracket c" "?tag = ''[IMG]'' @ b \<or> ?tag = ''[IMGS]'' @ b"
      by blast
    have "strip (collapse_newlines (sub_img (strip T @ [CHR 0x0A] @ ?tag))) = collapse_newlines (strip T)"
      using assms(3) False b by (rule clean_text_of_tagged)
    then show ?thesis using Vne False by (simp add: clean_text_content_def V)
  qed
  have main: "decode (PStr ?V) = (collapse_newlines (strip T), ?R)"
    by (simp only: decode_def cleaned paths)
  have rel: "(\<forall>p \<in> set I. \<not> isabs p) \<Longrightarrow> ?R = I"
    by (simp add: to_relative_paths_def map_idI)
  show ?thesis using main rel by auto
qed

theorem decode_encode_roundtrip_witness:
  "[''a.png'', ''b c.png''] \<noteq> [] \<and>
   to_relative_paths (\<lambda>p. p) [''a.png'', ''b c.png''] = [''a.png'', ''b c.png''] \<and>
   clean_path ''a.png'' \<and> clean_path ''b c.png'' \<and>
   \<not> has_tag (strip '' to do '') \<and>
   \<not> isabs ''a.png'' \<and> \<not> isabs ''b c.png'' \<and>
   collapse_newlines (strip '' to do '') = strip '' to do '' \<and>
   decode (PStr (format_cell_with_images (\<lambda>p. p) '' to do '' [''a.png'', ''b c.png''])) =
     (''to do'', [''a.png'', ''b c.png''])"
proof -
  have s: "strip '' to do '' = ''to do''"
    by (simp add: strip_def lstrip_def rstrip_def isspace_def)
  have r: "to_relative_paths (\<lambda>p. p) [''a.png'', ''b c.png''] = [''a.png'', ''b c.png'']"
    by (simp add: to_relative_paths_def isabs_def)
  have cp: "clean_path ''a.png''" "clean_path ''b c.png''"
    by (simp_all add: clean_path_def isspace_def)
  have h1: "\<forall>p \<in> set (to_relative_paths (\<lambda>p. p) [''a.png'', ''b c.png'']). clean_path p"
    using cp by (simp add: r)
  have h2: "\<not> has_tag (strip '' to do '')"
    by (simp add: s match_tag_def)
  have c: "collapse_newlines ''to do'' = ''to do''" by simp
  have a: "\<not> isabs ''a.png''" "\<not> isabs ''b c.png''" by (simp_all add: isabs_def)
  have "decode (PStr (format_cell_with_images (\<lambda>p. p) '' to do '' [''a.png'', ''b c.png''])) =
          (''to do'', [''a.png'', ''b c.png''])"
    using decode_encode_roundtrip[of "[''a.png'', ''b c.png'']" "\<lambda>p. p" "'' to do ''", OF _ h1 h2] a
    by (simp add: s c r)
  then show ?thesis using r cp h2 a by (simp add: s c)
qed

text \<open>
  The round trip as the spec states it (any text, any paths free of \<open>;\<close>) fails on a text
  with a run of newlines, on a path with white space at an end, on a path with a
  bracket, and on a text that holds a tag itself.
\<close>

theorem decode_encode_roundtrip_counterexample:
  "decode (PStr (format_cell_with_images (\<lambda>p. p) [CHR ''a'', CHR 0x0A, CHR 0x0A, CHR ''b''] [''p''])) \<noteq>
     (strip [CHR ''a'', CHR 0x0A, CHR 0x0A, CHR ''b''], [''p'']) \<and>
   decode (PStr (format_cell_with_images (\<lambda>p. p) ''x'' ['' p''])) \<noteq> (strip ''x'', ['' p'']) \<and>
   decode (PStr (format_cell_with_images (\<lambda>p. p) ''x'' [''a[1].png''])) \<noteq> (strip ''x'', [''a[1].png'']) \<and>
   decode (PStr (format_cell_with_images (\<lambda>p. p) ''[IMG] q'' [''p''])) \<noteq> (strip ''[IMG] q'', [''p''])"
  by (simp add: decode_def format_cell_with_images_def to_relative_paths_def isabs_def
      clean_text_content_def extract_image_paths_def match_paths_def capture_group_def
      strip_def lstrip_def rstrip_def isspace_def match_tag_def not_bracket_def)

text \<open>
  C7 (amended). For a text \<open>T\<close> without image tag, decoding gives no image and the
  text trimmed, with every run of newlines collapsed to one; it gives \<open>T\<close> itself when
  \<open>T\<close> has no white space at either end and no run of newlines. Encoding \<open>T\<close> with
  an empty image list gives \<open>T\<close> unchanged.
\<close>

theorem decode_untagged:
  assumes "\<not> has_tag T"
  shows "decode (PStr T) = (strip (collapse_newlines T), []) \<and>
         format_cell_with_images relpath T [] = T \<and>
         (strip T = T \<and> collapse_newlines T = T \<longrightarrow> decode (PStr T) = (T, []))"
proof -
  have p: "extract_image_paths (PStr T) = []"
    using assms by (simp add: extract_image_paths_concat no_tag_findall)
  have t: "clean_text_content (PStr T) = strip (collapse_newlines T)"
    using assms by (cases "T = []") (simp_all add: clean_text_content_def no_tag_sub strip_Nil)
  have d: "decode (PStr T) = (strip (collapse_newlines T), [])"
    by (simp only: decode_def p t)
  have e: "format_cell_with_images relpath T [] = T"
    by (simp add: format_cell_with_images_def)
  show ?thesis using d e by simp
qed

theorem decode_untagged_witness:
  "\<not> has_tag ''a b'' \<and> strip ''a b'' = ''a b'' \<and> collapse_newlines ''a b'' = ''a b'' \<and>
   decode (PStr ''a b'') = (''a b'', []) \<and> format_cell_with_images (\<lambda>p. p) ''a b'' [] = ''a b''"
proof -
  have h: "\<not> has_tag ''a b''" by (simp add: match_tag_def)
  have s: "strip ''a b'' = ''a b''" by (simp add: strip_def lstrip_def rstrip_def isspace_def)
  have c: "collapse_newlines ''a b'' = ''a b''" by simp
  show ?thesis using decode_untagged[OF h, of "\<lambda>p. p"] by (simp add: s c match_tag_def)
qed

text \<open>Decoding the untagged text \<open>'' a''\<close> does not give it back: the blank goes.\<close>

theorem decode_untagged_counterexample:
  "\<not> has_tag '' a'' \<and> decode (PStr '' a'') \<noteq> ('' a'', [])"
  by (simp add: decode_def clean_text_content_def strip_def lstrip_def rstrip_def isspace_def match_tag_def)

section \<open>Properties of the incremental merge\<close>

lemma removeAll_filter_notin:
  "removeAll x (filter (\<lambda>y. y \<notin> A) xs) = filter (\<lambda>y. y \<notin> insert x A) xs"
  by (induction xs) auto

lemma unique_loop_keep_first:
  "fold (\<lambda>img unique. if img \<in> set unique then unique else unique @ [img]) xs acc =
     acc @ keep_first (filter (\<lambda>y. y \<notin> set acc) xs)"
proof (induction xs arbitrary: acc)
  case Nil show ?case by simp
next
  case (Cons x xs)
  show ?case
  proof (cases "x \<in> set acc")
    case True
    then show ?thesis using Cons[of acc] by simp
  next
    case False
    then show ?thesis using Cons[of "acc @ [x]"] by (simp add: removeAll_filter_notin)
  qed
qed

lemma unique_images_keep_first: "unique_images xs = keep_first xs"
  using unique_loop_keep_first[of xs "[]"] by (simp add: unique_images_def)

lemma decode_or_empty: "decode (or_empty v) = decode v"
  by (cases v) (auto simp: or_empty_def decode_def clean_text_content_def extract_image_paths_def)

lemma merged_value_decode:
  "merged_value relpath (or_empty V) N =
     format_cell_with_images relpath (fst (decode V)) (keep_first (snd (decode V) @ N))"
  using decode_or_empty[of V]
  by (simp add: merged_value_def Let_def unique_images_keep_first decode_def)

lemma get_set_cell_data:
  "row < length g \<Longrightarrow> col < length (g ! row) \<Longrightarrow> get_cell_data (set_cell_data g row col v) row col = v"
  by (simp add: get_cell_data_def set_cell_data_def)

text \<open>
  C2. For a cell of the grid with value \<open>V\<close> and a list \<open>N\<close> of new image paths: when
  \<open>N\<close> is empty the grid is left as it is; otherwise the cell becomes
  \<open>encode(text, D)\<close>, where \<open>(text, E) = decode(V)\<close> and \<open>D\<close> is \<open>E\<close> followed by
  \<open>N\<close> with duplicates dropped, first occurrences kept. In particular merging
  \<open>[b, c]\<close> into \<open>encode(x, [a, b])\<close> gives \<open>encode(x, [a, b, c])\<close>.
\<close>

theorem add_images_merge:
  assumes "row < length sheet" "col < length (sheet ! row)"
  shows "(N = [] \<longrightarrow> add_images_to_cell_incremental relpath sheet row col N = sheet) \<and>
         (N \<noteq> [] \<longrightarrow>
            get_cell_data (add_images_to_cell_incremental relpath sheet row col N) row col =
              PStr (format_cell_with_images relpath
                      (fst (decode (get_cell_data sheet row col)))
                      (keep_first (snd (decode (get_cell_data sheet row col)) @ N)))) \<and>
         merged_value relpath (PStr (format_cell_with_images relpath ''x'' [''a'', ''b''])) [''b'', ''c''] =
           format_cell_with_images relpath ''x'' [''a'', ''b'', ''c'']"
proof (intro conjI impI)
  assume "N = []"
  then show "add_images_to_cell_incremental relpath sheet row col N = sheet"
    by (simp add: add_images_to_cell_incremental_def)
next
  assume "N \<noteq> []"
  then show "get_cell_data (add_images_to_cell_incremental relpath sheet row col N) row col =
              PStr (format_cell_with_images relpath
                      (fst (decode (get_cell_data sheet row col)))
                      (keep_first (snd (decode (get_cell_data sheet row col)) @ N)))"
    using assms by (simp add: add_images_to_cell_incremental_def get_set_cell_data merged_value_decode)
next
  have f: "format_cell_with_images relpath ''x'' [''a'', ''b''] = ''x'' @ [CHR 0x0A] @ ''[IMGS] a; b''"
    by (simp add: format_cell_with_images_def to_relative_paths_def isabs_def
        strip_def lstrip_def rstrip_def isspace_def)
  have d: "decode (PStr (''x'' @ [CHR 0x0A] @ ''[IMGS] a; b'')) = (''x'', [''a'', ''b''])"
    by (simp add: decode_def clean_text_content_def extract_image_paths_def match_paths_def capture_group_def
      strip_def lstrip_def rstrip_def isspace_def match_tag_def not_bracket_def)
  have "merged_value relpath (PStr (''x'' @ [CHR 0x0A] @ ''[IMGS] a; b'')) [''b'', ''c''] =
        format_cell_with_images relpath ''x'' (keep_first ([''a'', ''b''] @ [''b'', ''c'']))"
    using merged_value_decode[of relpath "PStr (''x'' @ [CHR 0x0A] @ ''[IMGS] a; b'')" "[''b'', ''c'']"]
    by (simp only: d fst_conv snd_conv or_empty_def truthy.simps) simp
  then show "merged_value relpath (PStr (format_cell_with_images relpath ''x'' [''a'', ''b''])) [''b'', ''c''] =
           format_cell_with_images relpath ''x'' [''a'', ''b'', ''c'']"
    by (simp add: f)
qed

theorem add_images_merge_witness:
  "(0::nat) < length [[PStr ''x [IMG] a'']] \<and> (0::nat) < length ([[PStr ''x [IMG] a'']] ! 0) \<and>
   add_images_to_cell_incremental (\<lambda>p. p) [[PStr ''x [IMG] a'']] 0 0 [] = [[PStr ''x [IMG] a'']] \<and>
   [''a'', ''b''] \<noteq> [] \<and>
   get_cell_data (add_images_to_cell_incremental (\<lambda>p. p) [[PStr ''x [IMG] a'']] 0 0 [''a'', ''b'']) 0 0 =
     PStr (''x'' @ [CHR 0x0A] @ ''[IMGS] a; b'')"
proof -
  have d: "decode (PStr ''x [IMG] a'') = (''x'', [''a''])"
    by (simp add: decode_def clean_text_content_def extract_image_paths_def match_paths_def capture_group_def
      strip_def lstrip_def rstrip_def isspace_def match_tag_def not_bracket_def)
  have f: "format_cell_with_images (\<lambda>p. p) ''x'' [''a'', ''b''] = ''x'' @ [CHR 0x0A] @ ''[IMGS] a; b''"
    by (simp add: format_cell_with_images_def to_relative_paths_def isabs_def
        strip_def lstrip_def rstrip_def isspace_def)
  show ?thesis
    using add_images_merge[of 0 "[[PStr ''x [IMG] a'']]" 0 "[]" "\<lambda>p. p"]
      add_images_merge[of 0 "[[PStr ''x [IMG] a'']]" 0 "[''a'', ''b'']" "\<lambda>p. p"]
    by (simp add: get_cell_data_def d f)
qed

section \<open>Properties of the wiki renderer\<close>

text \<open>The defining equations of the codec, for evaluating it on concrete cells.\<close>

lemmas codec_eval = decode_def format_cell_with_images_def to_relative_paths_def isabs_def
  clean_text_content_def extract_image_paths_def match_paths_def capture_group_def
  strip_def lstrip_def rstrip_def isspace_def match_tag_def not_bracket_def

lemma fold_filter_snoc:
  "fold (\<lambda>x acc. if P x then acc @ [f x] else acc) xs acc0 = acc0 @ map f (filter P xs)"
  by (induction xs arbitrary: acc0) simp_all

lemma fold_insert_existing:
  "fold (\<lambda>p F. if ex p then insert (g p) F else F) ps F0 = F0 \<union> g ` {p \<in> set ps. ex p}"
  by (induction ps arbitrary: F0) auto

lemma fold_cells_images:
  "fold (\<lambda>cell_value files.
           if truthy cell_value then
             fold (\<lambda>image_path files. if ex image_path then insert (basename image_path) files else files)
                  (extract_image_paths cell_value) files
           else files) row F0 =
   F0 \<union> basename ` {p. \<exists>cell \<in> set row. p \<in> set (extract_image_paths cell) \<and> ex p}"
proof (induction row arbitrary: F0)
  case Nil show ?case by simp
next
  case (Cons c row)
  have falsy: "\<not> truthy c \<Longrightarrow> extract_image_paths c = []" by (simp add: extract_image_paths_def)
  show ?case
  proof (cases "truthy c")
    case True
    then show ?thesis by (simp add: Cons fold_insert_existing) blast
  next
    case False
    then show ?thesis using falsy by (simp add: Cons) 
  qed
qed

lemma fold_union:
  assumes "\<And>x F. h x F = F \<union> G x"
  shows "fold h xs F0 = F0 \<union> (\<Union>x \<in> set xs. G x)"
  by (induction xs arbitrary: F0) (auto simp: assms)

lemma collect_image_files_set:
  "collect_image_files ex data =
     basename ` {p. \<exists>row \<in> set data. \<exists>cell \<in> set row. p \<in> set (extract_image_paths cell) \<and> ex p}"
proof -
  have "collect_image_files ex data =
        {} \<union> (\<Union>row \<in> set data.
                basename ` {p. \<exists>cell \<in> set row. p \<in> set (extract_image_paths cell) \<and> ex p})"
    unfolding collect_image_files_def by (rule fold_union) (rule fold_cells_images)
  then show ?thesis by auto
qed

lemma finite_collect_image_files: "finite (collect_image_files ex data)"
proof -
  have "{p. \<exists>row \<in> set data. \<exists>cell \<in> set row. p \<in> set (extract_image_paths cell) \<and> ex p}
        \<subseteq> (\<Union>row \<in> set data. \<Union>cell \<in> set row. set (extract_image_paths cell))"
    by auto
  moreover have "finite (\<Union>row \<in> set data. \<Union>cell \<in> set row. set (extract_image_paths cell))"
    by simp
  ultimately have "finite {p. \<exists>row \<in> set data. \<exists>cell \<in> set row. p \<in> set (extract_image_paths cell) \<and> ex p}"
    by (rule finite_subset)
  then show ?thesis by (simp add: collect_image_files_set)
qed

text \<open>
  C9. The rendered text is the title, the header row, one data row for each grid row
  that has a truthy raw cell (and for no other row, in grid order), the fixed trailer,
  and a bullet list that ends the text. The bullets are in sorted order without
  repetition, and they are exactly the base names of the images that some cell
  references and that exist on disk.
\<close>

theorem get_wiki_content_rows_and_attachments:
  "get_wiki_content ex headers data =
     ''h2. '' @ zh_table_data @ [CHR 0x0A, CHR 0x0A] @ header_row headers @
     concat (map (data_row ex) (filter (list_ex truthy) data)) @
     [CHR 0x0A] @ ''h3. '' @ zh_image_files @ [CHR 0x0A] @
     zh_please_upload @ ''Confluence'' @ zh_page_attachments @ [CHR 0x0A, CHR 0x0A] @
     concat (map (\<lambda>image_file. ''* '' @ image_file @ [CHR 0x0A])
               (sorted_list_of_set (collect_image_files ex data))) \<and>
   sorted (sorted_list_of_set (collect_image_files ex data)) \<and>
   distinct (sorted_list_of_set (collect_image_files ex data)) \<and>
   set (sorted_list_of_set (collect_image_files ex data)) =
     {basename p | p. \<exists>row \<in> set data. \<exists>cell \<in> set row.
                        p \<in> set (extract_image_paths cell) \<and> ex p}"
proof (intro conjI)
  show "get_wiki_content ex headers data =
     ''h2. '' @ zh_table_data @ [CHR 0x0A, CHR 0x0A] @ header_row headers @
     concat (map (data_row ex) (filter (list_ex truthy) data)) @
     [CHR 0x0A] @ ''h3. '' @ zh_image_files @ [CHR 0x0A] @
     zh_please_upload @ ''Confluence'' @ zh_page_attachments @ [CHR 0x0A, CHR 0x0A] @
     concat (map (\<lambda>image_file. ''* '' @ image_file @ [CHR 0x0A])
               (sorted_list_of_set (collect_image_files ex data)))"
    by (simp add: get_wiki_content_def Let_def fold_filter_snoc fold_snoc_map)
  show "sorted (sorted_list_of_set (collect_image_files ex data))" by simp
  show "distinct (sorted_list_of_set (collect_image_files ex data))" by simp
  show "set (sorted_list_of_set (collect_image_files ex data)) =
     {basename p | p. \<exists>row \<in> set data. \<exists>cell \<in> set row.
                        p \<in> set (extract_image_paths cell) \<and> ex p}"
    using finite_collect_image_files[of ex data] by (auto simp: collect_image_files_set)
qed


theorem get_wiki_content_rows_and_attachments_witness:
  "get_wiki_content (\<lambda>p. p \<noteq> ''assets/no.png'') [''A'', ''B'']
     [[PStr ''[IMGS] assets/b.png; assets/a.png; assets/no.png'', PNone],
      [PNone, PStr []],
      [PStr ''[IMG] assets/a.png'', PStr ''y'']] =
   ''h2. '' @ zh_table_data @ [CHR 0x0A, CHR 0x0A] @ ''||A||B||'' @ [CHR 0x0A] @
   ''|!b.png!|!a.png!||'' @ [CHR 0x0A] @
   ''|!a.png!|y|'' @ [CHR 0x0A] @
   [CHR 0x0A] @ ''h3. '' @ zh_image_files @ [CHR 0x0A] @
   zh_please_upload @ ''Confluence'' @ zh_page_attachments @ [CHR 0x0A, CHR 0x0A] @
   ''* a.png'' @ [CHR 0x0A] @ ''* b.png'' @ [CHR 0x0A]"
proof -
  let ?ex = "\<lambda>p. p \<noteq> ''assets/no.png''"
  let ?r1 = "[PStr ''[IMGS] assets/b.png; assets/a.png; assets/no.png'', PNone]"
  let ?r3 = "[PStr ''[IMG] assets/a.png'', PStr ''y'']"
  let ?data = "[?r1, [PNone, PStr []], ?r3]"
  have files: "sorted_list_of_set (collect_image_files ?ex ?data) = [''a.png'', ''b.png'']"
    by code_simp
  have rows: "filter (list_ex truthy) ?data = [?r1, ?r3]" by simp
  have r1: "data_row ?ex ?r1 = ''|!b.png!|!a.png!||'' @ [CHR 0x0A]"
    by (simp add: data_row_def cell_content_def image_refs_def basename_def replace_newlines_def codec_eval)
  have r3: "data_row ?ex ?r3 = ''|!a.png!|y|'' @ [CHR 0x0A]"
    by (simp add: data_row_def cell_content_def image_refs_def basename_def replace_newlines_def codec_eval)
  have h: "header_row [''A'', ''B''] = ''||A||B||'' @ [CHR 0x0A]"
    by (simp add: header_row_def)
  note main = conjunct1[OF get_wiki_content_rows_and_attachments[of ?ex "[''A'', ''B'']" ?data]]
  show ?thesis
    unfolding main files rows by (simp add: r1 r3 h)
qed


text \<open>
  C6. The text that \<open>_export_wiki_sync\<close> writes into a package is not the text of
  \<open>get_wiki_content\<close>: for a one-cell document that references an existing image it
  has neither the inline marker nor the trailer with the attachment list.
\<close>

theorem export_wiki_sync_omits_images:
  "export_wiki_sync_text [''A''] [[PStr ''[IMG] pic.png'']] =
     ''h2. '' @ zh_table_data @ [CHR 0x0A, CHR 0x0A] @ ''||A||'' @ [CHR 0x0A] @ ''||'' @ [CHR 0x0A] \<and>
   get_wiki_content (\<lambda>p. p = ''pic.png'') [''A''] [[PStr ''[IMG] pic.png'']] =
     ''h2. '' @ zh_table_data @ [CHR 0x0A, CHR 0x0A] @ ''||A||'' @ [CHR 0x0A] @
     ''|!pic.png!|'' @ [CHR 0x0A] @
     [CHR 0x0A] @ ''h3. '' @ zh_image_files @ [CHR 0x0A] @
     zh_please_upload @ ''Confluence'' @ zh_page_attachments @ [CHR 0x0A, CHR 0x0A] @
     ''* pic.png'' @ [CHR 0x0A] \<and>
   export_wiki_sync_text [''A''] [[PStr ''[IMG] pic.png'']] \<noteq>
     get_wiki_content (\<lambda>p. p = ''pic.png'') [''A''] [[PStr ''[IMG] pic.png'']]"
proof -
  have e: "export_wiki_sync_text [''A''] [[PStr ''[IMG] pic.png'']] =
     ''h2. '' @ zh_table_data @ [CHR 0x0A, CHR 0x0A] @ ''||A||'' @ [CHR 0x0A] @ ''||'' @ [CHR 0x0A]"
    by (simp add: export_wiki_sync_text_def sync_cell_content_def header_row_def replace_newlines_def codec_eval)
  have files: "sorted_list_of_set (collect_image_files (\<lambda>p. p = ''pic.png'') [[PStr ''[IMG] pic.png'']]) = [''pic.png'']"
    by code_simp
  have g: "get_wiki_content (\<lambda>p. p = ''pic.png'') [''A''] [[PStr ''[IMG] pic.png'']] =
     ''h2. '' @ zh_table_data @ [CHR 0x0A, CHR 0x0A] @ ''||A||'' @ [CHR 0x0A] @
     ''|!pic.png!|'' @ [CHR 0x0A] @
     [CHR 0x0A] @ ''h3. '' @ zh_image_files @ [CHR 0x0A] @
     zh_please_upload @ ''Confluence'' @ zh_page_attachments @ [CHR 0x0A, CHR 0x0A] @
     ''* pic.png'' @ [CHR 0x0A]"
    by (simp add: get_wiki_content_def Let_def files header_row_def
        data_row_def cell_content_def image_refs_def basename_def replace_newlines_def codec_eval)
  show ?thesis by (simp add: e g)
qed

section \<open>Properties of load, save, package import and package export\<close>

lemma pad_row_replicate: "pad_row m row = row @ replicate (m - length row) (PStr [])"
proof (induction m row rule: pad_row.induct)
  case (1 m row)
  show ?case
  proof (cases "length row < m")
    case True
    then have "m - length row = Suc (m - Suc (length row))" by simp
    with True 1 show ?thesis
      by (subst pad_row.simps) (simp add: replicate_app_Cons_same)
  next
    case False
    then show ?thesis by (subst pad_row.simps) simp
  qed
qed

lemma pad_rows_replicate:
  "pad_rows r c data = data @ replicate (r - length data) (replicate c (PStr []))"
proof (induction r c data rule: pad_rows.induct)
  case (1 r c data)
  show ?case
  proof (cases "length data < r")
    case True
    then have "r - length data = Suc (r - Suc (length data))" by simp
    with True 1 show ?thesis
      by (subst pad_rows.simps) (simp add: replicate_app_Cons_same)
  next
    case False
    then show ?thesis by (subst pad_rows.simps) simp
  qed
qed

text \<open>The grid that a load builds from a table.\<close>

lemma load_try_body_success:
  assumes "load_try_body e filename st = (None, st')"
  shows "\<exists>df. read_excel e (machine st) filename = Inr df \<and>
           sheet_data st' =
             pad_rows (max 100 (length (df_values df))) (max 20 (length (df_columns df)))
               (map (pad_row (max 20 (length (df_columns df))))
                  (map (map cell_to_str) (df_values (fillna df)))) \<and>
           sheet_headers st' = generate_column_headers (int (max 20 (length (df_columns df)))) \<and>
           current_file st' = Some filename"
proof (cases "read_excel e (machine st) filename")
  case (Inl err)
  with assms show ?thesis by (simp add: load_try_body_def)
next
  case (Inr df)
  have len: "length (df_values (fillna df)) = length (df_values df)"
    and cols: "df_columns (fillna df) = df_columns df"
    by (simp_all add: fillna_def)
  from assms Inr show ?thesis
    by (auto simp: load_try_body_def Let_def len cols split: prod.splits option.splits if_splits)
qed

lemma load_assets_fields:
  "load_assets e d st = (r, st1) \<Longrightarrow>
     sheet_data st1 = sheet_data st \<and> sheet_headers st1 = sheet_headers st \<and>
     current_file st1 = current_file st \<and> dialogs st1 = dialogs st \<and>
     self_assets_dir st1 = self_assets_dir st"
  by (auto simp: load_assets_def split: prod.splits option.splits)

lemma load_try_body_failure:
  assumes "load_try_body e filename st = (Some err, st1)"
  shows "sheet_data st1 = sheet_data st \<and> sheet_headers st1 = sheet_headers st \<and>
         current_file st1 = current_file st \<and> dialogs st1 = dialogs st"
proof (cases "read_excel e (machine st) filename")
  case (Inl err')
  with assms show ?thesis by (simp add: load_try_body_def)
next
  case (Inr df)
  let ?d = "join (dirname filename) (fst (splitext (basename filename)) @ ''_assets'')"
  show ?thesis
  proof (cases "path_exists (machine st) ?d")
    case False
    with assms Inr show ?thesis by (simp add: load_try_body_def Let_def)
  next
    case True
    obtain r st2 where l: "load_assets e ?d st = (r, st2)" by (cases "load_assets e ?d st")
    with assms Inr True have "r = Some err" "st1 = st2"
      by (auto simp: load_try_body_def Let_def split: option.splits)
    with load_assets_fields[OF l] show ?thesis by simp
  qed
qed

lemma load_try_body_success_dialogs:
  assumes "load_try_body e filename st = (None, st1)"
  shows "\<exists>rows cols. dialogs st1 = dialogs st @ [InfoOpened rows cols]"
proof (cases "read_excel e (machine st) filename")
  case (Inl err')
  with assms show ?thesis by (simp add: load_try_body_def)
next
  case (Inr df)
  let ?d = "join (dirname filename) (fst (splitext (basename filename)) @ ''_assets'')"
  show ?thesis
  proof (cases "path_exists (machine st) ?d")
    case False
    with assms Inr show ?thesis by (auto simp: load_try_body_def Let_def)
  next
    case True
    obtain r st2 where l: "load_assets e ?d st = (r, st2)" by (cases "load_assets e ?d st")
    with assms Inr True load_assets_fields[OF l] show ?thesis
      by (auto simp: load_try_body_def Let_def split: option.splits)
  qed
qed

lemma load_outcome:
  "(\<exists>rows cols. dialogs (load_from_excel_file e filename st) = dialogs st @ [InfoOpened rows cols] \<and>
       PANDAS_AVAILABLE e \<and> OPENPYXL_AVAILABLE e \<and> fst (load_try_body e filename st) = None) \<or>
   (\<exists>d. is_error d \<and> dialogs (load_from_excel_file e filename st) = dialogs st @ [d] \<and>
       same_document st (load_from_excel_file e filename st) \<and>
       (\<not> PANDAS_AVAILABLE e \<or> \<not> OPENPYXL_AVAILABLE e \<or> fst (load_try_body e filename st) \<noteq> None))"
proof (cases "\<not> PANDAS_AVAILABLE e \<or> \<not> OPENPYXL_AVAILABLE e")
  case True
  then have "load_from_excel_file e filename st = st\<lparr>dialogs := dialogs st @ [ErrMissingLibraries]\<rparr>"
    by (simp only: load_from_excel_file_def if_True)
  with True show ?thesis by (auto simp: same_document_def)
next
  case False
  obtain r st1 where b: "load_try_body e filename st = (r, st1)"
    by (cases "load_try_body e filename st")
  show ?thesis
  proof (cases r)
    case None
    with b False have "load_from_excel_file e filename st = st1"
      by (simp add: load_from_excel_file_def)
    with load_try_body_success_dialogs[of e filename st st1] b None False show ?thesis by auto
  next
    case (Some err)
    with b False have "load_from_excel_file e filename st = st1\<lparr>dialogs := dialogs st1 @ [ErrOpenFailed err]\<rparr>"
      by (simp add: load_from_excel_file_def)
    with load_try_body_failure[of e filename st err st1] b Some show ?thesis
      by (auto simp: same_document_def)
  qed
qed

lemma reports_error_append: "dialogs st' = dialogs st @ ds \<Longrightarrow> reports_error st st' = list_ex is_error ds"
  by (simp add: reports_error_def new_dialogs_def)

lemma load_reports_error_iff:
  "reports_error st (load_from_excel_file e filename st) \<longleftrightarrow>
     (\<not> PANDAS_AVAILABLE e \<or> \<not> OPENPYXL_AVAILABLE e \<or> fst (load_try_body e filename st) \<noteq> None)"
  using load_outcome[of e filename st] by (auto simp: reports_error_append)



lemma leave_temp_dir_fields [simp]:
  "sheet_data (leave_temp_dir e st) = sheet_data st"
  "sheet_headers (leave_temp_dir e st) = sheet_headers st"
  "current_file (leave_temp_dir e st) = current_file st"
  "dialogs (leave_temp_dir e st) = dialogs st"
  by (simp_all add: leave_temp_dir_def)

lemma same_document_machine [simp]: "same_document (st\<lparr>machine := w\<rparr>) st' = same_document st st'"
  by (simp add: same_document_def)

lemma reports_error_machine [simp]: "reports_error (st\<lparr>machine := w\<rparr>) st' = reports_error st st'"
  by (simp add: reports_error_def new_dialogs_def)








lemma list_entry_files [simp]: "files (list_entry p w) = files w"
  by (simp add: list_entry_def split: option.splits)

lemma makedirs_files [simp]: "files (makedirs p w) = files w"
  by (simp add: makedirs_def)

lemma sibling_ready_files [simp]: "files (sibling_ready filename w) = files w"
  by (simp add: sibling_ready_def)




















text \<open>
  \<open>save_as_excel_file\<close> binds the chosen file name even when the save has failed: the
  assignment follows the call of \<open>_save_to_excel_file\<close>, which has caught its error.
\<close>

theorem save_as_binds_path_after_failed_save:
  "reports_error example_app (save_as_excel_file locked_env ''out/locked.xlsx'' example_app) \<and>
   files (machine (save_as_excel_file locked_env ''out/locked.xlsx'' example_app)) ''out/locked.xlsx'' = None \<and>
   current_file example_app = None \<and>
   current_file (save_as_excel_file locked_env ''out/locked.xlsx'' example_app) = Some ''out/locked.xlsx''"
proof -
  have "reports_error example_app (save_as_excel_file locked_env ''out/locked.xlsx'' example_app)"
    by code_simp
  moreover have "files (machine (save_as_excel_file locked_env ''out/locked.xlsx'' example_app))
                   ''out/locked.xlsx'' = None"
    by code_simp
  moreover have "current_file example_app = None" by code_simp
  moreover have "current_file (save_as_excel_file locked_env ''out/locked.xlsx'' example_app) =
                   Some ''out/locked.xlsx''"
    by code_simp
  ultimately show ?thesis by simp
qed

section \<open>Properties of the loaded grid\<close>

lemma cell_to_str_fillna: "cell_to_str (if cell = PNone then PStr [] else cell) = cell_to_str cell"
  by (cases cell) simp_all

text \<open>
  The shape of the grid after a successful load, in terms of the table that
  \<open>pd.read_excel\<close> has returned, with \<open>r\<close> rows and \<open>c\<close> columns: exactly
  \<open>max(100, r)\<close> rows of exactly \<open>max(20, c)\<close> cells each, the cells of the table in
  place as text, every other cell empty, and the \<open>max(20, c)\<close> generated headers.
\<close>

theorem load_grid_shape:
  assumes "PANDAS_AVAILABLE e" and "OPENPYXL_AVAILABLE e"
    and "fst (load_try_body e filename st) = None"
    and "read_excel e (machine st) filename = Inr df"
    and "\<forall>row \<in> set (df_values df). length row = length (df_columns df)"
  defines "r \<equiv> length (df_values df)" and "c \<equiv> length (df_columns df)"
    and "g \<equiv> sheet_data (load_from_excel_file e filename st)"
  shows "length g = max 100 r \<and>
         (\<forall>row \<in> set g. length row = max 20 c) \<and>
         (\<forall>i < r. \<forall>j < c. g ! i ! j = cell_to_str (df_values df ! i ! j)) \<and>
         (\<forall>i < max 100 r. \<forall>j < max 20 c. r \<le> i \<or> c \<le> j \<longrightarrow> g ! i ! j = PStr []) \<and>
         sheet_headers (load_from_excel_file e filename st) = generate_column_headers (int (max 20 c)) \<and>
         length (sheet_headers (load_from_excel_file e filename st)) = max 20 c"
proof -
  let ?R = "max 100 r" and ?C = "max 20 c"
  let ?E = "PStr []"
  obtain st1 where b: "load_try_body e filename st = (None, st1)"
    using assms(3) by (cases "load_try_body e filename st") auto
  have l: "load_from_excel_file e filename st = st1"
    using assms(1,2) b by (simp add: load_from_excel_file_def)
  from load_try_body_success[OF b] assms(4)
  have data: "sheet_data st1 = pad_rows ?R ?C (map (pad_row ?C) (map (map cell_to_str) (df_values (fillna df))))"
    and hdr: "sheet_headers st1 = generate_column_headers (int ?C)"
    by (auto simp: r_def c_def)
  define body where "body = map (\<lambda>row. map cell_to_str row @ replicate (?C - c) ?E) (df_values df)"
  have rows: "map (pad_row ?C) (map (map cell_to_str) (df_values (fillna df))) = body"
    using assms(5)
    by (auto simp: body_def fillna_def pad_row_replicate c_def cell_to_str_fillna o_def)
  have lb: "length body = r" by (simp add: body_def r_def)
  have "g = pad_rows ?R ?C body"
    by (simp only: g_def l data rows)
  then have g: "g = body @ replicate (?R - r) (replicate ?C ?E)"
    by (simp only: pad_rows_replicate lb)
  have rowlen: "\<forall>row \<in> set body. length row = ?C"
    using assms(5) by (auto simp: body_def c_def)
  show ?thesis
  proof (intro conjI allI impI ballI)
    show "length g = ?R" by (simp add: g lb)
  next
    fix row assume "row \<in> set g"
    then show "length row = ?C" using rowlen by (auto simp: g)
  next
    fix i j assume ij: "i < r" "j < c"
    then have "df_values df ! i \<in> set (df_values df)" by (simp add: r_def)
    then have len: "length (df_values df ! i) = c" using assms(5) by (simp add: c_def)
    have "g ! i = map cell_to_str (df_values df ! i) @ replicate (?C - c) ?E"
      using ij(1) by (simp add: g nth_append lb) (simp add: body_def r_def)
    then show "g ! i ! j = cell_to_str (df_values df ! i ! j)"
      using ij(2) len by (simp add: nth_append)
  next
    fix i j assume ij: "i < ?R" "j < ?C" "r \<le> i \<or> c \<le> j"
    show "g ! i ! j = ?E"
    proof (cases "i < r")
      case True
      then have "df_values df ! i \<in> set (df_values df)" by (simp add: r_def)
      then have len: "length (df_values df ! i) = c" using assms(5) by (simp add: c_def)
      have "g ! i = map cell_to_str (df_values df ! i) @ replicate (?C - c) ?E"
        using True by (simp add: g nth_append lb) (simp add: body_def r_def)
      moreover have "c \<le> j" using True ij(3) by simp
      ultimately show ?thesis using ij(2) len by (simp add: nth_append)
    next
      case False
      then have "g ! i = replicate ?C ?E" using ij(1) by (simp add: g nth_append lb)
      then show ?thesis using ij(2) by simp
    qed
  next
    show "sheet_headers (load_from_excel_file e filename st) = generate_column_headers (int ?C)"
      by (simp add: l hdr)
  next
    show "length (sheet_headers (load_from_excel_file e filename st)) = ?C"
      by (simp add: l hdr generate_column_headers_map)
  qed
qed

text \<open>
  The cells of the grid in terms of the texts that the file holds: a cell whose text is
  one of the missing-value markers of pandas is loaded as the empty string, like an
  empty cell; every other text is loaded as it is.
\<close>

theorem load_cell_of_file:
  assumes "PANDAS_AVAILABLE e" and "OPENPYXL_AVAILABLE e"
    and "fst (load_try_body e filename st) = None"
    and "files (machine st) filename = Some content"
    and "parse_excel e content = Inr raw"
    and "\<forall>row \<in> set (df_values raw). length row = length (df_columns raw)"
    and "i < length (df_values raw)" and "j < length (df_columns raw)"
  shows "sheet_data (load_from_excel_file e filename st) ! i ! j =
           (case df_values raw ! i ! j of
              PNone \<Rightarrow> PStr []
            | PStr s \<Rightarrow> if s \<in> set pandas_na_values then PStr [] else PStr s)"
proof -
  let ?df = "raw\<lparr>df_values := map (map na_filter) (df_values raw)\<rparr>"
  have rd: "read_excel e (machine st) filename = Inr ?df"
    using assms(4,5) by (simp add: read_excel_def)
  have rect: "\<forall>row \<in> set (df_values ?df). length row = length (df_columns ?df)"
    using assms(6) by simp
  have "df_values raw ! i \<in> set (df_values raw)" using assms(7) by simp
  then have len: "length (df_values raw ! i) = length (df_columns raw)" using assms(6) by blast
  have "sheet_data (load_from_excel_file e filename st) ! i ! j = cell_to_str (df_values ?df ! i ! j)"
    using load_grid_shape[OF assms(1,2,3) rd rect] assms(7,8) by simp
  also have "df_values ?df ! i ! j = na_filter (df_values raw ! i ! j)"
    using assms(7,8) len by simp
  finally show ?thesis
    by (cases "df_values raw ! i ! j") simp_all
qed

text \<open>The load of the example file \<open>book.xlsx\<close>.\<close>

theorem load_grid_shape_witness:
  "PANDAS_AVAILABLE example_env \<and> OPENPYXL_AVAILABLE example_env \<and>
   fst (load_try_body example_env ''book.xlsx'' example_app) = None \<and>
   read_excel example_env (machine example_app) ''book.xlsx'' =
     Inr \<lparr>df_columns = [''name''], df_values = [[PStr ''v'']]\<rparr> \<and>
   length (sheet_data (load_from_excel_file example_env ''book.xlsx'' example_app)) = 100 \<and>
   length (sheet_data (load_from_excel_file example_env ''book.xlsx'' example_app) ! 0) = 20 \<and>
   length (sheet_data (load_from_excel_file example_env ''book.xlsx'' example_app) ! 99) = 20 \<and>
   sheet_data (load_from_excel_file example_env ''book.xlsx'' example_app) ! 0 ! 0 = PStr ''v'' \<and>
   sheet_data (load_from_excel_file example_env ''book.xlsx'' example_app) ! 0 ! 1 = PStr [] \<and>
   sheet_data (load_from_excel_file example_env ''book.xlsx'' example_app) ! 99 ! 19 = PStr [] \<and>
   length (sheet_headers (load_from_excel_file example_env ''book.xlsx'' example_app)) = 20"
proof -
  let ?df = "\<lparr>df_columns = [''name''], df_values = [[PStr ''v'']]\<rparr>"
  let ?g = "sheet_data (load_from_excel_file example_env ''book.xlsx'' example_app)"
  have p: "PANDAS_AVAILABLE example_env" and o: "OPENPYXL_AVAILABLE example_env"
    by (simp_all add: example_env_def)
  have ok: "fst (load_try_body example_env ''book.xlsx'' example_app) = None"
    by code_simp
  have rd: "read_excel example_env (machine example_app) ''book.xlsx'' = Inr ?df"
    by code_simp
  have rect: "\<forall>row \<in> set (df_values ?df). length row = length (df_columns ?df)"
    by simp
  note s = load_grid_shape[OF p o ok rd rect]
  have len: "length ?g = 100" using s by simp
  have rows: "\<forall>row \<in> set ?g. length row = 20" using s by simp
  have "?g ! 0 \<in> set ?g" "?g ! 99 \<in> set ?g" using len by (simp_all del: One_nat_def)
  then have l0: "length (?g ! 0) = 20" and l99: "length (?g ! 99) = 20" using rows by blast+
  have c00: "?g ! 0 ! 0 = PStr ''v''" using s by simp
  have pad: "\<forall>i < 100. \<forall>j < 20. 1 \<le> i \<or> 1 \<le> j \<longrightarrow> ?g ! i ! j = PStr []"
    using s by simp
  have c01: "?g ! 0 ! 1 = PStr []" using pad by simp
  have c9919: "?g ! 99 ! 19 = PStr []" using pad by simp
  have h: "length (sheet_headers (load_from_excel_file example_env ''book.xlsx'' example_app)) = 20"
    using s by (simp add: generate_column_headers_map)
  show ?thesis using p o ok rd len l0 l99 c00 c01 c9919 h by simp
qed

text \<open>
  C5. A spreadsheet file whose one data cell holds the text \<open>NA\<close> loads without error
  into a grid of 100 rows and 20 columns, but the cell comes out empty: the value of
  the file is dropped.
\<close>

theorem load_drops_na_text:
  "files (machine example_app) ''na.xlsx'' = Some ''table with NA'' \<and>
   parse_excel example_env ''table with NA'' =
     Inr \<lparr>df_columns = [''name''], df_values = [[PStr ''NA'']]\<rparr> \<and>
   dialogs (load_from_excel_file example_env ''na.xlsx'' example_app) = [InfoOpened 100 20] \<and>
   length (sheet_data (load_from_excel_file example_env ''na.xlsx'' example_app)) = 100 \<and>
   sheet_data (load_from_excel_file example_env ''na.xlsx'' example_app) ! 0 ! 0 = PStr []"
proof -
  have "files (machine example_app) ''na.xlsx'' = Some ''table with NA''" by code_simp
  moreover have "parse_excel example_env ''table with NA'' =
     Inr \<lparr>df_columns = [''name''], df_values = [[PStr ''NA'']]\<rparr>"
    by code_simp
  moreover have "dialogs (load_from_excel_file example_env ''na.xlsx'' example_app) = [InfoOpened 100 20]"
    by code_simp
  moreover have "length (sheet_data (load_from_excel_file example_env ''na.xlsx'' example_app)) = 100"
    by code_simp
  moreover have "sheet_data (load_from_excel_file example_env ''na.xlsx'' example_app) ! 0 ! 0 = PStr []"
    by code_simp
  ultimately show ?thesis by simp
qed

text \<open>
  In that run both libraries are present and the \<open>try\<close> block raises nothing; the
  cell of the grid is not the text of the file.
\<close>

theorem load_drops_na_text_witness:
  "PANDAS_AVAILABLE example_env \<and> OPENPYXL_AVAILABLE example_env \<and>
   fst (load_try_body example_env ''na.xlsx'' example_app) = None \<and>
   sheet_data (load_from_excel_file example_env ''na.xlsx'' example_app) ! 0 ! 0 \<noteq> PStr ''NA''"
proof -
  have "PANDAS_AVAILABLE example_env" by code_simp
  moreover have "OPENPYXL_AVAILABLE example_env" by code_simp
  moreover have "fst (load_try_body example_env ''na.xlsx'' example_app) = None" by code_simp
  moreover from load_drops_na_text
  have "sheet_data (load_from_excel_file example_env ''na.xlsx'' example_app) ! 0 ! 0 \<noteq> PStr ''NA''"
    by simp
  ultimately show ?thesis by simp
qed

section \<open>Properties of the asset directory\<close>

text \<open>
  C4. Two different pictures of the same base name, copied by one call of
  \<open>copy_images_to_assets\<close> within one second of the clock, get the same name in the
  asset directory: both returned paths are equal, the directory holds one file, and its
  content is that of the second picture.
\<close>

theorem copy_images_same_second_overwrites:
  "files (machine example_app) ''/a/pic.png'' = Some ''AAA'' \<and>
   files (machine example_app) ''/b/pic.png'' = Some ''BBB'' \<and>
   dirs (machine example_app) ''assets'' = Some [] \<and>
   fst (copy_images_to_assets example_env [''/a/pic.png'', ''/b/pic.png''] ''assets'' (machine example_app)) =
     Inr [''assets/pic_20240101_120000.png'', ''assets/pic_20240101_120000.png''] \<and>
   files (snd (copy_images_to_assets example_env [''/a/pic.png'', ''/b/pic.png''] ''assets''
                 (machine example_app))) ''assets/pic_20240101_120000.png'' = Some ''BBB'' \<and>
   dirs (snd (copy_images_to_assets example_env [''/a/pic.png'', ''/b/pic.png''] ''assets''
                (machine example_app))) ''assets'' = Some [''pic_20240101_120000.png'']"
proof -
  have "files (machine example_app) ''/a/pic.png'' = Some ''AAA''" by code_simp
  moreover have "files (machine example_app) ''/b/pic.png'' = Some ''BBB''" by code_simp
  moreover have "dirs (machine example_app) ''assets'' = Some []" by code_simp
  moreover have "fst (copy_images_to_assets example_env [''/a/pic.png'', ''/b/pic.png''] ''assets'' (machine example_app)) =
     Inr [''assets/pic_20240101_120000.png'', ''assets/pic_20240101_120000.png'']"
    by code_simp
  moreover have "files (snd (copy_images_to_assets example_env [''/a/pic.png'', ''/b/pic.png''] ''assets''
                 (machine example_app))) ''assets/pic_20240101_120000.png'' = Some ''BBB''"
    by code_simp
  moreover have "dirs (snd (copy_images_to_assets example_env [''/a/pic.png'', ''/b/pic.png''] ''assets''
                (machine example_app))) ''assets'' = Some [''pic_20240101_120000.png'']"
    by code_simp
  ultimately show ?thesis by simp
qed

end
